theory Spec2Isabelle
  imports Complex_Main
begin

section \<open>Strings and regular expressions\<close>

text \<open>
  A JavaScript string is modelled as a list of code units below 256 (the Latin-1 range of
  UTF-16); code units above that range are outside the model. The character classes are the
  ones of the ECMAScript specification restricted to that range: \<^verbatim>\<open>\s\<close> (and
  \<^verbatim>\<open>trim\<close>) see TAB, LF, VT, FF, CR, space and the no-break space U+00A0.
\<close>

definition isDigit :: "char \<Rightarrow> bool" where
  "isDigit c = (let n = (of_char c :: nat) in 48 \<le> n \<and> n \<le> 57)"

definition isLowerAZ :: "char \<Rightarrow> bool" where
  "isLowerAZ c = (let n = (of_char c :: nat) in 97 \<le> n \<and> n \<le> 122)"

definition isSpace :: "char \<Rightarrow> bool" where
  "isSpace c = (let n = (of_char c :: nat) in (9 \<le> n \<and> n \<le> 13) \<or> n = 32 \<or> n = 160)"

text \<open>\<^verbatim>\<open>String.prototype.toLowerCase\<close> on one code unit below 256: A-Z and the Latin-1
  capitals U+00C0..U+00DE (without the multiplication sign U+00D7) move up by 32.\<close>

definition lowerChar :: "char \<Rightarrow> char" where
  "lowerChar c =
     (let n = (of_char c :: nat)
      in if (65 \<le> n \<and> n \<le> 90) \<or> (192 \<le> n \<and> n \<le> 222 \<and> n \<noteq> 215)
         then char_of (n + 32) else c)"

definition toLowerCase :: "string \<Rightarrow> string" where
  "toLowerCase s = map lowerChar s"

definition trim :: "string \<Rightarrow> string" where
  "trim s = rev (dropWhile isSpace (rev (dropWhile isSpace s)))"

definition endsWith :: "string \<Rightarrow> string \<Rightarrow> bool" where
  "endsWith s w = (length w \<le> length s \<and> drop (length s - length w) s = w)"

definition startsWith :: "string \<Rightarrow> string \<Rightarrow> bool" where
  "startsWith s w = (take (length w) s = w)"

text \<open>
  The fragment of regular expressions the program uses: literals, \<^verbatim>\<open>+\<close> and
  \<^verbatim>\<open>*\<close> over a character class, sequence, alternation and the optional group.
  \<open>rmatch r s\<close> lists the remainders of \<open>s\<close> after every way \<open>r\<close> can match a prefix of
  \<open>s\<close>, in the priority order of a backtracking matcher (greedy quantifiers try the longest
  run first, an alternation its left branch first, an optional group its body first), so
  the match the engine reports is the head of the list.
\<close>

datatype regex =
    Lit string
  | Plus "char \<Rightarrow> bool"
  | Star "char \<Rightarrow> bool"
  | Seq regex regex
  | Alt regex regex
  | Opt regex

fun rmatch :: "regex \<Rightarrow> string \<Rightarrow> string list" where
  "rmatch (Lit w) s = (if startsWith s w then [drop (length w) s] else [])"
| "rmatch (Plus p) s = map (\<lambda>k. drop k s) (rev [1 ..< Suc (length (takeWhile p s))])"
| "rmatch (Star p) s = map (\<lambda>k. drop k s) (rev [0 ..< Suc (length (takeWhile p s))])"
| "rmatch (Seq a b) s = concat (map (rmatch b) (rmatch a s))"
| "rmatch (Alt a b) s = rmatch a s @ rmatch b s"
| "rmatch (Opt a) s = rmatch a s @ [s]"

text \<open>\<^verbatim>\<open>s.replace(/^r/, '')\<close>: an anchored pattern without the global flag removes the
  preferred match at the start of the string, or leaves the string alone.\<close>

definition replaceAnchored :: "regex \<Rightarrow> string \<Rightarrow> string" where
  "replaceAnchored r s = (case rmatch r s of [] \<Rightarrow> s | rest # _ \<Rightarrow> rest)"

text \<open>\<^verbatim>\<open>s.replace(/r/g, '')\<close> for a pattern that cannot match the empty string: scan
  from the left, drop each match and go on behind it.\<close>

function replaceAll :: "regex \<Rightarrow> string \<Rightarrow> string" where
  "replaceAll r [] = []"
| "replaceAll r (c # cs) =
     (case rmatch r (c # cs) of
        [] \<Rightarrow> c # replaceAll r cs
      | rest # _ \<Rightarrow> if length rest < length (c # cs) then replaceAll r rest
                   else c # replaceAll r cs)"
  by pat_completeness auto
termination
  by (relation "measure (\<lambda>(r, s). length s)") auto

text \<open>\<^verbatim>\<open>s.match(/r/)\<close> without the global flag: the text of the leftmost match.\<close>

fun matchFirst :: "regex \<Rightarrow> string \<Rightarrow> string option" where
  "matchFirst r [] = (case rmatch r [] of [] \<Rightarrow> None | rest # _ \<Rightarrow> Some [])"
| "matchFirst r (c # cs) =
     (case rmatch r (c # cs) of
        [] \<Rightarrow> matchFirst r cs
      | rest # _ \<Rightarrow> Some (take (length (c # cs) - length rest) (c # cs)))"

section \<open>The text normalizer (\<^verbatim>\<open>cleanIngredientText\<close>)\<close>

definition unitWords :: regex where
  "unitWords =
     Alt (Lit ''g'') (Alt (Lit ''kg'') (Alt (Lit ''ml'') (Alt (Lit ''l'') (Alt (Lit ''oz'')
    (Alt (Lit ''lb'') (Alt (Seq (Lit ''cup'') (Opt (Lit ''s''))) (Alt (Lit ''tsp'')
    (Alt (Lit ''tbsp'') (Alt (Lit ''pinch'') (Alt (Lit ''bunch'')
    (Alt (Seq (Lit ''piece'') (Opt (Lit ''s''))) (Alt (Seq (Lit ''slice'') (Opt (Lit ''s'')))
    (Alt (Seq (Lit ''can'') (Opt (Lit ''s''))) (Alt (Seq (Lit ''tin'') (Opt (Lit ''s'')))
    (Alt (Seq (Lit ''bottle'') (Opt (Lit ''s''))) (Alt (Seq (Lit ''packet'') (Opt (Lit ''s'')))
    (Alt (Seq (Lit ''jar'') (Opt (Lit ''s''))) (Alt (Seq (Lit ''clove'') (Opt (Lit ''s'')))
    (Alt (Seq (Lit ''head'') (Opt (Lit ''s''))) (Alt (Seq (Lit ''stalk'') (Opt (Lit ''s'')))
         (Seq (Lit ''fillet'') (Opt (Lit ''s'')))))))))))))))))))))))"

definition isQtyChar :: "char \<Rightarrow> bool" where
  "isQtyChar c = (isDigit c \<or> c = CHR ''.'' \<or> c = CHR ''/'' \<or> isSpace c)"

definition quantityRegex :: regex where
  "quantityRegex =
     Seq (Opt (Plus isQtyChar))
      (Seq (Opt unitWords)
        (Seq (Plus isSpace) (Opt (Seq (Lit ''of'') (Plus isSpace)))))"

definition parensRegex :: regex where
  "parensRegex = Seq (Lit ''('') (Seq (Star (\<lambda>c. c \<noteq> CHR '')'')) (Lit '')''))"

definition singularize :: "string \<Rightarrow> string" where
  "singularize cleaned =
     (if length cleaned > 3 \<and> endsWith cleaned ''s'' \<and> \<not> endsWith cleaned ''ss''
      then take (length cleaned - 1) cleaned else cleaned)"

definition cleanIngredientText :: "string \<Rightarrow> string" where
  "cleanIngredientText text0 =
     (let cleaned = toLowerCase text0;
          cleaned = replaceAll parensRegex cleaned;
          cleaned = filter (\<lambda>c. isLowerAZ c \<or> isDigit c \<or> isSpace c) cleaned;
          cleaned = trim (replaceAnchored quantityRegex cleaned);
          cleaned = trim (replaceAnchored (Plus isQtyChar) cleaned)
      in singularize cleaned)"

section \<open>Data model (\<^verbatim>\<open>types.ts\<close>)\<close>

datatype MealType = LUNCH | DINNER

datatype Protein = ANY | CHICKEN | BEEF | PORK | LAMB | FISH | VEGETARIAN

record Ingredient =
  item :: string
  store :: string
  price :: string

text \<open>JavaScript numbers that the data model declares as integers are modelled as \<open>int\<close>.\<close>

record Recipe =
  id_r :: string
  title :: string
  description :: string
  mealType :: MealType
  protein :: Protein
  prepTimeMinutes :: int
  difficulty :: int
  ingredients :: "Ingredient list"
  instructions :: "string list"
  image_r :: "string option"

record FilterState =
  mealType_f :: MealType
  protein_f :: "Protein list"
  maxTime :: int
  supermarket :: string
  difficulty_f :: string

record IngredientContribution =
  recipeId :: string
  recipeTitle :: string
  text_c :: string
  price_c :: "string option"

record ShoppingListItem =
  id_i :: string
  name :: string
  store_i :: string
  checked :: bool
  contributions :: "IngredientContribution list"

record DayPlan =
  lunch :: "Recipe option"
  dinner :: "Recipe option"

datatype Day = Monday | Tuesday | Wednesday | Thursday | Friday | Saturday | Sunday

type_synonym WeeklyPlan = "Day \<Rightarrow> DayPlan"

definition DAYS_OF_WEEK :: "Day list" where
  "DAYS_OF_WEEK = [Monday, Tuesday, Wednesday, Thursday, Friday, Saturday, Sunday]"

section \<open>The recipe cache (\<^verbatim>\<open>App.tsx\<close>)\<close>

text \<open>The callback of \<^verbatim>\<open>recipeCache.filter\<close> in \<^verbatim>\<open>getCachedMatches\<close>, with its early
  returns in the order of the source.\<close>

definition cacheMatch :: "FilterState \<Rightarrow> Recipe \<Rightarrow> bool" where
  "cacheMatch currentFilters r =
     (if mealType r \<noteq> mealType_f currentFilters then False
      else let proteinMatch = (ANY \<in> set (protein_f currentFilters)
                               \<or> protein r \<in> set (protein_f currentFilters))
      in if \<not> proteinMatch then False
      else if prepTimeMinutes r > maxTime currentFilters then False
      else if difficulty_f currentFilters \<noteq> ''Any'' then
        (let level = difficulty r
         in if difficulty_f currentFilters = ''Easy'' \<and> level > 2 then False
            else if difficulty_f currentFilters = ''Medium'' \<and> (level < 3 \<or> level > 3) then False
            else if difficulty_f currentFilters = ''Hard'' \<and> level < 4 then False
            else True)
      else True)"

definition getCachedMatches :: "Recipe list \<Rightarrow> FilterState \<Rightarrow> Recipe list" where
  "getCachedMatches recipeCache currentFilters = filter (cacheMatch currentFilters) recipeCache"

text \<open>The updater that \<^verbatim>\<open>addToCache\<close> hands to \<^verbatim>\<open>setRecipeCache\<close>: \<open>prev\<close> is
  the cache before, the result the cache after.\<close>

definition addToCache :: "Recipe list \<Rightarrow> Recipe list \<Rightarrow> Recipe list" where
  "addToCache newRecipes prev =
     (let existingTitles = set (map title prev);
          uniqueNew = filter (\<lambda>r. title r \<notin> existingTitles) newRecipes
      in if length uniqueNew = 0 then prev else prev @ uniqueNew)"

section \<open>Image patching (\<^verbatim>\<open>handleUpdateRecipeImage\<close>)\<close>

record Session =
  recipes :: "Recipe list"
  favoriteRecipes :: "Recipe list"
  recipeCache :: "Recipe list"
  weeklyPlan :: "WeeklyPlan option"

definition patchRecipe :: "string \<Rightarrow> string \<Rightarrow> Recipe \<Rightarrow> Recipe" where
  "patchRecipe i img r = (if id_r r = i then r\<lparr>image_r := Some img\<rparr> else r)"

text \<open>One round of the \<^verbatim>\<open>forEach\<close> over the days of the plan: the state is the plan
  under construction and the \<^verbatim>\<open>planChanged\<close> flag. The source assigns the image inside
  the recipe object of the slot; the objects of a slot are reachable from the plan only, and
  an object that another collection shares has the same id and receives the same image
  there, so the assignment is modelled on values.\<close>

definition patchDay :: "string \<Rightarrow> string \<Rightarrow> Day \<Rightarrow> WeeklyPlan \<times> bool \<Rightarrow> WeeklyPlan \<times> bool" where
  "patchDay i img day st =
     (let (newPlan, planChanged) = st;
          (newPlan, planChanged) =
            (case lunch (newPlan day) of
               Some l \<Rightarrow> if id_r l = i
                         then (newPlan(day := (newPlan day)\<lparr>lunch := Some (l\<lparr>image_r := Some img\<rparr>)\<rparr>), True)
                         else (newPlan, planChanged)
             | None \<Rightarrow> (newPlan, planChanged))
      in (case dinner (newPlan day) of
            Some d \<Rightarrow> if id_r d = i
                      then (newPlan(day := (newPlan day)\<lparr>dinner := Some (d\<lparr>image_r := Some img\<rparr>)\<rparr>), True)
                      else (newPlan, planChanged)
          | None \<Rightarrow> (newPlan, planChanged)))"

text \<open>\<open>closurePlan\<close> is the \<^verbatim>\<open>weeklyPlan\<close> the handler closed over; the three list
  collections are updated through updater functions and so start from the state \<open>s\<close>.\<close>

definition handleUpdateRecipeImage :: "WeeklyPlan option \<Rightarrow> string \<Rightarrow> string \<Rightarrow> Session \<Rightarrow> Session" where
  "handleUpdateRecipeImage closurePlan i img s =
     (let s = s\<lparr>recipes := map (patchRecipe i img) (recipes s)\<rparr>;
          s = s\<lparr>favoriteRecipes := map (patchRecipe i img) (favoriteRecipes s)\<rparr>;
          s = s\<lparr>recipeCache := map (patchRecipe i img) (recipeCache s)\<rparr>
      in (case closurePlan of
            None \<Rightarrow> s
          | Some wp \<Rightarrow>
              (let (newPlan, planChanged) = fold (patchDay i img) DAYS_OF_WEEK (wp, False)
               in if planChanged then s\<lparr>weeklyPlan := Some newPlan\<rparr> else s)))"

section \<open>The shopping list (\<^verbatim>\<open>App.tsx\<close>)\<close>

definition isRecipeInList :: "ShoppingListItem list \<Rightarrow> string \<Rightarrow> bool" where
  "isRecipeInList shoppingList t =
     list_ex (\<lambda>it. list_ex (\<lambda>c. recipeTitle c = t) (contributions it)) shoppingList"

text \<open>\<^verbatim>\<open>Array.prototype.findIndex\<close>: the index of the first element that satisfies the
  predicate, or -1.\<close>

fun findIndex :: "('a \<Rightarrow> bool) \<Rightarrow> 'a list \<Rightarrow> int" where
  "findIndex P [] = - 1"
| "findIndex P (x # xs) =
     (if P x then 0 else (let i = findIndex P xs in if i < 0 then - 1 else i + 1))"

text \<open>The updater of the removal branch of \<^verbatim>\<open>toggleShoppingList\<close>.\<close>

definition removeRecipe :: "Recipe \<Rightarrow> ShoppingListItem list \<Rightarrow> ShoppingListItem list" where
  "removeRecipe recipe prev =
     filter (\<lambda>it. length (contributions it) > 0)
       (map (\<lambda>it. it\<lparr>contributions :=
                      filter (\<lambda>c. recipeTitle c \<noteq> title recipe) (contributions it)\<rparr>) prev)"

text \<open>
  The ids of new items come from \<^verbatim>\<open>Math.random\<close>. The generator is a parameter:
  \<open>gen k\<close> is the id string that the \<open>k\<close>-th draw of the session yields, and the number of
  draws made so far travels with the list.
\<close>

type_synonym ListState = "ShoppingListItem list \<times> nat"

definition resolveStore :: "Ingredient \<Rightarrow> string" where
  "resolveStore ing = (if store ing = [] then ''Any'' else store ing)"

definition contributionOf :: "Recipe \<Rightarrow> Ingredient \<Rightarrow> IngredientContribution" where
  "contributionOf recipe ing =
     \<lparr>recipeId = id_r recipe, recipeTitle = title recipe, text_c = item ing,
      price_c = Some (price ing)\<rparr>"

text \<open>The body of \<^verbatim>\<open>recipe.ingredients.forEach\<close> in the add branch.\<close>

definition addIngredient :: "(nat \<Rightarrow> string) \<Rightarrow> Recipe \<Rightarrow> Ingredient \<Rightarrow> ListState \<Rightarrow> ListState" where
  "addIngredient gen recipe ing st =
     (let (newList, k) = st;
          normName = cleanIngredientText (item ing);
          store0 = resolveStore ing;
          existingItemIndex = findIndex (\<lambda>it. store_i it = store0 \<and> name it = normName) newList;
          contribution = contributionOf recipe ing
      in if existingItemIndex \<ge> 0
         then (newList[nat existingItemIndex :=
                 (newList ! nat existingItemIndex)
                   \<lparr>checked := False,
                    contributions := contributions (newList ! nat existingItemIndex) @ [contribution]\<rparr>],
               k)
         else (newList @ [\<lparr>id_i = gen k, name = normName, store_i = store0, checked = False,
                           contributions = [contribution]\<rparr>],
               Suc k))"

definition addRecipe :: "(nat \<Rightarrow> string) \<Rightarrow> Recipe \<Rightarrow> ListState \<Rightarrow> ListState" where
  "addRecipe gen recipe prev = fold (addIngredient gen recipe) (ingredients recipe) prev"

text \<open>
  \<^verbatim>\<open>toggleShoppingList\<close> tests membership on \<open>shoppingList\<close>, the list of the render
  the handler was created in, and enqueues an updater that runs on \<open>prev\<close>, the list at the
  time the update is applied. When every call is followed by a render the two are the same
  list; calls made from one event handler share \<open>shoppingList\<close>.
\<close>

definition toggleShoppingList ::
    "(nat \<Rightarrow> string) \<Rightarrow> ShoppingListItem list \<Rightarrow> Recipe \<Rightarrow> ListState \<Rightarrow> ListState" where
  "toggleShoppingList gen shoppingList recipe prev =
     (if isRecipeInList shoppingList (title recipe)
      then (removeRecipe recipe (fst prev), snd prev)
      else addRecipe gen recipe prev)"

section \<open>JavaScript numbers\<close>

text \<open>
  A number is an IEEE 754 double. The price display only meets values that are not
  negative: \<open>Finite m e\<close> is the double \<open>m * 2\<^sup>e\<close> with \<open>0 \<le> m\<close>, and \<open>PosInfinity\<close> is
  \<^verbatim>\<open>Infinity\<close>. \<open>roundRatio p q\<close> is the double nearest to the fraction \<open>p / q\<close> of
  two integers (\<open>0 \<le> p\<close>, \<open>0 < q\<close>), ties to the even mantissa: it finds the binary
  exponent of the fraction, rounds the fraction to a multiple of the unit in the last
  place (that of the subnormals below \<open>2\<^sup>-\<^sup>1\<^sup>0\<^sup>2\<^sup>2\<close>), and overflows to infinity from
  \<open>2\<^sup>1\<^sup>0\<^sup>2\<^sup>4\<close> on. A nonzero result has its mantissa in \<open>[2\<^sup>5\<^sup>2, 2\<^sup>5\<^sup>3)\<close> unless it is
  subnormal, so equal doubles are equal terms.
\<close>

datatype number = Finite int int | PosInfinity

function bitLength :: "int \<Rightarrow> int" where
  "bitLength n = (if n \<le> 0 then 0 else 1 + bitLength (n div 2))"
  by pat_completeness auto
termination
  by (relation "measure nat") auto

definition roundRatio :: "int \<Rightarrow> int \<Rightarrow> number" where
  "roundRatio p q =
     (if p \<le> 0 then Finite 0 0
      else let d = bitLength p - bitLength q;
               e = (if (if d \<ge> 0 then q * 2 ^ nat d \<le> p else q \<le> p * 2 ^ nat (- d))
                    then d else d - 1);
               u = max e (- 1022) - 52;
               a = (if u \<ge> 0 then p else p * 2 ^ nat (- u));
               b = (if u \<ge> 0 then q * 2 ^ nat u else q);
               f = a div b;
               r = a mod b;
               n = (if 2 * r < b then f else if 2 * r > b then f + 1
                    else if even f then f else f + 1);
               (n, u) = (if n = 2 ^ 53 then (2 ^ 52, u + 1) else (n, u))
           in if u + 52 \<ge> 1024 then PosInfinity else Finite n u)"

text \<open>The sum of two doubles: the exact sum, rounded.\<close>

definition addNumber :: "number \<Rightarrow> number \<Rightarrow> number" where
  "addNumber a b =
     (case a of
        PosInfinity \<Rightarrow> PosInfinity
      | Finite m1 e1 \<Rightarrow>
          (case b of
             PosInfinity \<Rightarrow> PosInfinity
           | Finite m2 e2 \<Rightarrow>
               (let e = min e1 e2;
                    m = m1 * 2 ^ nat (e1 - e) + m2 * 2 ^ nat (e2 - e)
                in if e \<ge> 0 then roundRatio (m * 2 ^ nat e) 1 else roundRatio m (2 ^ nat (- e)))))"

text \<open>\<^verbatim>\<open>x > 0\<close>.\<close>

definition isPositive :: "number \<Rightarrow> bool" where
  "isPositive x = (case x of Finite m e \<Rightarrow> m > 0 | PosInfinity \<Rightarrow> True)"

definition digitsValue :: "string \<Rightarrow> int" where
  "digitsValue ds = foldl (\<lambda>a c. 10 * a + (of_char c - 48)) 0 ds"

text \<open>\<^verbatim>\<open>parseFloat\<close> on a text that starts with digits: the digits, and after a point
  the digits that follow it, denote a decimal fraction, and the result is the double
  nearest to it. (For more than 20 significant digits ECMAScript lets an engine round a
  truncated numeral; the engines in use round the numeral itself, as here.)\<close>

definition parseFloat :: "string \<Rightarrow> number" where
  "parseFloat s =
     (let ip = takeWhile isDigit s; rest = dropWhile isDigit s
      in case rest of
           [] \<Rightarrow> roundRatio (digitsValue ip) 1
         | c # fp0 \<Rightarrow>
             (let fp = takeWhile isDigit fp0
              in if c = CHR ''.'' then roundRatio (digitsValue (ip @ fp)) (10 ^ length fp)
                 else roundRatio (digitsValue ip) 1))"

text \<open>The decimal digits of an integer that is not negative.\<close>

function showInt :: "int \<Rightarrow> string" where
  "showInt n = (if n < 10 then [char_of (48 + n)] else showInt (n div 10) @ [char_of (48 + n mod 10)])"
  by pat_completeness auto
termination
  by (relation "measure nat") auto

text \<open>
  \<^verbatim>\<open>Number::toString\<close> for a finite double \<open>x \<ge> 10\<^sup>2\<^sup>1\<close>, which is an integer \<open>X\<close>: the
  digits \<open>s\<close> (\<open>k\<close> of them, as few as possible) and the exponent \<open>n\<close> with
  \<open>s * 10\<^sup>n\<^sup>-\<^sup>k\<close> rounding to \<open>x\<close>, written as \<^verbatim>\<open>d.ddde+N\<close>. The numerals of \<open>k\<close>
  digits nearest to \<open>X\<close> are the one below and the one above it, with \<open>n\<close> the number of
  digits of \<open>X\<close> or one more; among those that round to \<open>x\<close> the nearest is taken, the
  even one on a tie. Seventeen digits always suffice.
\<close>

definition exponentCandidates :: "int \<Rightarrow> number \<Rightarrow> nat \<Rightarrow> (int \<times> nat \<times> int) list" where
  "exponentCandidates X x k =
     [(\<bar>s * 10 ^ (n - k) - X\<bar>, n, s).
        n \<leftarrow> [length (showInt X), length (showInt X) + 1],
        s \<leftarrow> [X div 10 ^ (n - k), X div 10 ^ (n - k) + 1],
        10 ^ (k - 1) \<le> s \<and> s < 10 ^ k \<and> roundRatio (s * 10 ^ (n - k)) 1 = x]"

definition nearestCandidate :: "(int \<times> nat \<times> int) \<Rightarrow> (int \<times> nat \<times> int) list \<Rightarrow> (int \<times> nat \<times> int)" where
  "nearestCandidate c cs =
     fold (\<lambda>c' best. if fst c' < fst best \<or> (fst c' = fst best \<and> even (snd (snd c'))) then c' else best)
       cs c"

definition numberToStringExp :: "number \<Rightarrow> string" where
  "numberToStringExp x =
     (case x of
        PosInfinity \<Rightarrow> ''Infinity''
      | Finite m e \<Rightarrow>
          (let X = m * 2 ^ nat e
           in case List.find (\<lambda>k. exponentCandidates X x k \<noteq> []) [1 ..< 18] of
                None \<Rightarrow> showInt X
              | Some k \<Rightarrow>
                  (case exponentCandidates X x k of
                     [] \<Rightarrow> showInt X
                   | c # cs \<Rightarrow>
                       (let (dist, n, s) = nearestCandidate c cs
                        in (case showInt s of
                              [] \<Rightarrow> []
                            | d # rest \<Rightarrow> if rest = [] then [d] else d # ''.'' @ rest)
                           @ ''e+'' @ showInt (int n - 1)))))"

text \<open>
  \<^verbatim>\<open>x.toFixed(2)\<close> for \<open>x \<ge> 0\<close>: \<^verbatim>\<open>Infinity\<close> for the infinite value, the
  exponent notation of \<^verbatim>\<open>Number::toString\<close> from \<open>10\<^sup>2\<^sup>1\<close> on, and otherwise the integer
  \<open>n\<close> with \<open>n / 100\<close> nearest to the exact value of the double (the larger one on a tie),
  printed with two decimals.
\<close>

definition toFixed2 :: "number \<Rightarrow> string" where
  "toFixed2 x =
     (case x of
        PosInfinity \<Rightarrow> ''Infinity''
      | Finite m e \<Rightarrow>
          (let p = m * 2 ^ nat e; q = 2 ^ nat (- e)
           in if p \<ge> 10 ^ 21 * q then numberToStringExp x
              else (let n = (200 * p + q) div (2 * q)
                    in showInt (n div 100) @ ''.''
                         @ [char_of (48 + (n mod 100) div 10), char_of (48 + n mod 10)])))"

section \<open>Price display (\<^verbatim>\<open>getItemPriceDisplay\<close>)\<close>

definition priceRegex :: regex where
  "priceRegex = Seq (Plus isDigit) (Opt (Seq (Lit ''.'') (Plus isDigit)))"

fun join :: "string \<Rightarrow> string list \<Rightarrow> string" where
  "join sep [] = []"
| "join sep [x] = x"
| "join sep (x # y # ys) = x @ sep @ join sep (y # ys)"

text \<open>One round of the \<^verbatim>\<open>for\<close> loop over the prices: the state is \<open>(sum, allParseable)\<close>.\<close>

definition priceStep :: "string \<Rightarrow> number \<times> bool \<Rightarrow> number \<times> bool" where
  "priceStep p st =
     (let (sum, allParseable) = st
      in case matchFirst priceRegex p of
           Some m \<Rightarrow> (addNumber sum (parseFloat m), allParseable)
         | None \<Rightarrow> (sum, False))"

text \<open>\<^verbatim>\<open>filter(p => p)\<close> keeps the prices that are present and not the empty string;
  the result \<open>None\<close> is JavaScript's \<^verbatim>\<open>null\<close>.\<close>

definition getItemPriceDisplay :: "ShoppingListItem \<Rightarrow> string option" where
  "getItemPriceDisplay it =
     (let prices = concat (map (\<lambda>c. case price_c c of
                                       None \<Rightarrow> []
                                     | Some p \<Rightarrow> if p = [] then [] else [p]) (contributions it))
      in if length prices = 0 then None
         else if length prices = 1 then Some (prices ! 0)
         else (let (sum, allParseable) = fold priceStep prices (Finite 0 0, True)
               in if allParseable \<and> isPositive sum then Some (''$'' @ toFixed2 sum)
                  else Some (join '' + '' prices)))"

section \<open>Example data\<close>

definition exRecipe :: "string \<Rightarrow> string \<Rightarrow> MealType \<Rightarrow> Protein \<Rightarrow> int \<Rightarrow> int \<Rightarrow> Ingredient list \<Rightarrow> Recipe" where
  "exRecipe i t m p mins lvl ings =
     \<lparr>id_r = i, title = t, description = [], mealType = m, protein = p, prepTimeMinutes = mins,
      difficulty = lvl, ingredients = ings, instructions = [], image_r = None\<rparr>"

definition exStew :: Recipe where
  "exStew = exRecipe ''r1'' ''Stew'' DINNER BEEF 40 2 []"

definition exCurry :: Recipe where
  "exCurry = exRecipe ''r2'' ''Curry'' DINNER CHICKEN 30 3 []"

definition exRoast :: Recipe where
  "exRoast = exRecipe ''r3'' ''Roast'' DINNER LAMB 45 5 []"

definition exWrap :: Recipe where
  "exWrap = exRecipe ''r4'' ''Wrap'' LUNCH CHICKEN 10 3 []"

definition exStewAgain :: Recipe where
  "exStewAgain = exRecipe ''r5'' ''Stew'' DINNER BEEF 35 2 []"

definition exMediumDinner :: FilterState where
  "exMediumDinner =
     \<lparr>mealType_f = DINNER, protein_f = [CHICKEN, FISH], maxTime = 45, supermarket = ''Any'',
      difficulty_f = ''Medium''\<rparr>"

definition exContribution :: "Recipe \<Rightarrow> string \<Rightarrow> string option \<Rightarrow> IngredientContribution" where
  "exContribution r t p = \<lparr>recipeId = id_r r, recipeTitle = title r, text_c = t, price_c = p\<rparr>"

definition exItem :: "string \<Rightarrow> string \<Rightarrow> bool \<Rightarrow> IngredientContribution list \<Rightarrow> ShoppingListItem" where
  "exItem i n ch cs = \<lparr>id_i = i, name = n, store_i = ''Any'', checked = ch, contributions = cs\<rparr>"

definition exOnion :: ShoppingListItem where
  "exOnion = exItem ''i1'' ''onion'' True
     [exContribution exStew ''2 onions'' (Some ''$3.50''),
      exContribution exCurry ''1 onion'' (Some ''$1.25''),
      exContribution exStewAgain ''3 onions'' None]"

definition exBeef :: ShoppingListItem where
  "exBeef = exItem ''i2'' ''beef'' False [exContribution exStew ''500g beef'' (Some ''$9'')]"

definition exRice :: ShoppingListItem where
  "exRice = exItem ''i3'' ''rice'' False
     [exContribution exCurry ''1 cup rice'' (Some ''about two dollars''),
      exContribution exRoast ''rice'' (Some ''$1.25'')]"

definition exSalt :: ShoppingListItem where
  "exSalt = exItem ''i4'' ''salt'' False [exContribution exCurry ''salt'' (Some ''$3.5'')]"

definition exThreeDecimals :: ShoppingListItem where
  "exThreeDecimals = exItem ''i6'' ''saffron'' False
     [exContribution exCurry ''saffron'' (Some ''1.255''),
      exContribution exRoast ''saffron'' (Some ''1'')]"

definition exHuge :: ShoppingListItem where
  "exHuge = exItem ''i7'' ''truffle'' False
     [exContribution exCurry ''truffle'' (Some ''$1000000000000000000000''),
      exContribution exRoast ''truffle'' (Some ''$1'')]"

definition exPlan :: WeeklyPlan where
  "exPlan = (\<lambda>d. \<lparr>lunch = None, dinner = None\<rparr>)
              (Monday := \<lparr>lunch = Some exWrap, dinner = Some exStew\<rparr>)"

definition exNewPlan :: WeeklyPlan where
  "exNewPlan = (\<lambda>d. \<lparr>lunch = None, dinner = None\<rparr>)
                 (Tuesday := \<lparr>lunch = Some exCurry, dinner = None\<rparr>)"

definition exRegenerated :: Session where
  "exRegenerated = \<lparr>recipes = [], favoriteRecipes = [], recipeCache = [],
                     weeklyPlan = Some exNewPlan\<rparr>"

definition exSession :: Session where
  "exSession = \<lparr>recipes = [exWrap, exStew], favoriteRecipes = [exStew], recipeCache = [exWrap],
                weeklyPlan = Some exPlan\<rparr>"

definition exGen :: "nat \<Rightarrow> string" where
  "exGen k = ''id'' @ showInt (int k)"

definition exSalad :: Recipe where
  "exSalad = exRecipe ''r6'' ''Salad'' LUNCH VEGETARIAN 10 1
     [\<lparr>item = ''2 cups (diced) Tomatoes'', store = ''Aldi'', price = ''$3.50''\<rparr>,
      \<lparr>item = ''Salt'', store = [], price = ''$1''\<rparr>]"

definition exSoup :: Recipe where
  "exSoup = exRecipe ''r7'' ''Soup'' DINNER VEGETARIAN 25 2
     [\<lparr>item = ''3 Tomatoes'', store = ''Aldi'', price = ''$1.25''\<rparr>]"

definition exTomato :: ShoppingListItem where
  "exTomato = \<lparr>id_i = ''i5'', name = ''tomatoe'', store_i = ''Aldi'', checked = True,
               contributions = [exContribution exCurry ''4 tomatoes'' (Some ''$2'')]\<rparr>"

definition exMix :: Recipe where
  "exMix = exRecipe ''r8'' ''Mix'' LUNCH ANY 5 1
     [\<lparr>item = ''ab s'', store = ''Coles'', price = ''$1''\<rparr>,
      \<lparr>item = ''ab'', store = ''Coles'', price = ''$1''\<rparr>]"

section \<open>Reference definitions\<close>

text \<open>The sum that the loop of the price display builds: the doubles parsed from the first
  numeric substring of each price that has one, added in order starting from 0.\<close>

definition priceTotal :: "string list \<Rightarrow> number" where
  "priceTotal ps =
     foldl addNumber (Finite 0 0) (map parseFloat (List.map_filter (matchFirst priceRegex) ps))"

text \<open>The combined price estimate in the words of the specification: the sum of the
  numeric price substrings, with two decimals, when every price of the item parses, and
  the raw price strings joined by \<open>'' + ''\<close> otherwise.\<close>

definition priceDisplay_spec :: "ShoppingListItem \<Rightarrow> string" where
  "priceDisplay_spec it =
     (let raw = List.map_filter price_c (contributions it)
      in if list_all (\<lambda>p. matchFirst priceRegex p \<noteq> None) raw
         then ''$'' @ toFixed2 (priceTotal raw)
         else join '' + '' raw)"

text \<open>What patching does to the two slots of a day, and whether a day holds the id.\<close>

definition patchSlots :: "string \<Rightarrow> string \<Rightarrow> DayPlan \<Rightarrow> DayPlan" where
  "patchSlots i img dp =
     dp\<lparr>lunch := map_option (patchRecipe i img) (lunch dp),
        dinner := map_option (patchRecipe i img) (dinner dp)\<rparr>"

definition holdsId :: "string \<Rightarrow> DayPlan \<Rightarrow> bool" where
  "holdsId i dp = ((\<exists>r. lunch dp = Some r \<and> id_r r = i) \<or> (\<exists>r. dinner dp = Some r \<and> id_r r = i))"

text \<open>The merge key of an item and of an ingredient, and the effect of one merge step
  written as a recursion over the list: the first item that satisfies \<open>P\<close> receives the
  contribution and is unchecked, and without such an item \<open>new\<close> goes to the end.\<close>

definition itemKey :: "ShoppingListItem \<Rightarrow> string \<times> string" where
  "itemKey it = (store_i it, name it)"

definition ingredientKey :: "Ingredient \<Rightarrow> string \<times> string" where
  "ingredientKey ing = (resolveStore ing, cleanIngredientText (item ing))"

fun mergeContribution ::
    "(ShoppingListItem \<Rightarrow> bool) \<Rightarrow> IngredientContribution \<Rightarrow> ShoppingListItem
      \<Rightarrow> ShoppingListItem list \<Rightarrow> ShoppingListItem list" where
  "mergeContribution P c new [] = [new]"
| "mergeContribution P c new (x # xs) =
     (if P x then x\<lparr>checked := False, contributions := contributions x @ [c]\<rparr> # xs
      else x # mergeContribution P c new xs)"

definition newItem :: "(nat \<Rightarrow> string) \<Rightarrow> nat \<Rightarrow> Recipe \<Rightarrow> Ingredient \<Rightarrow> ShoppingListItem" where
  "newItem gen k recipe ing =
     \<lparr>id_i = gen k, name = cleanIngredientText (item ing), store_i = resolveStore ing,
      checked = False, contributions = [contributionOf recipe ing]\<rparr>"

text \<open>How many times the item that a merge with key \<open>kk\<close> goes to, the first item with
  that key, holds the contribution \<open>c\<close>.\<close>

definition held :: "ShoppingListItem list \<Rightarrow> string \<times> string \<Rightarrow> IngredientContribution \<Rightarrow> nat" where
  "held l kk c =
     (case find (\<lambda>it. itemKey it = kk) l of
        None \<Rightarrow> 0
      | Some it \<Rightarrow> count_list (contributions it) c)"

text \<open>The characters that survive the third step of the normalizer.\<close>

definition cleanChar :: "char \<Rightarrow> bool" where
  "cleanChar c = (isLowerAZ c \<or> isDigit c \<or> isSpace c)"

section \<open>Verification: the recipe cache\<close>

text \<open>
  C3. For every cache and every filter, \<open>getCachedMatches\<close> returns exactly the cached
  recipes (in cache order) whose meal type equals the filter's, whose protein is in the
  filter's protein list unless that list contains the wildcard \<open>ANY\<close>, whose preparation
  time is at most \<open>maxTime\<close>, and whose difficulty lies in the band of the filter: at most 2
  for Easy, exactly 3 for Medium, at least 4 for Hard; the label Any (like every label other
  than these three) puts no condition on the difficulty.
\<close>

theorem getCachedMatches_exact:
  "getCachedMatches cache f =
     filter (\<lambda>r. mealType r = mealType_f f
               \<and> (ANY \<in> set (protein_f f) \<or> protein r \<in> set (protein_f f))
               \<and> prepTimeMinutes r \<le> maxTime f
               \<and> (difficulty_f f = ''Easy'' \<longrightarrow> difficulty r \<le> 2)
               \<and> (difficulty_f f = ''Medium'' \<longrightarrow> difficulty r = 3)
               \<and> (difficulty_f f = ''Hard'' \<longrightarrow> difficulty r \<ge> 4)) cache
   \<and> (difficulty_f f = ''Any'' \<longrightarrow>
        getCachedMatches cache f =
          filter (\<lambda>r. mealType r = mealType_f f
               \<and> (ANY \<in> set (protein_f f) \<or> protein r \<in> set (protein_f f))
               \<and> prepTimeMinutes r \<le> maxTime f) cache)"
proof -
  have "cacheMatch f r \<longleftrightarrow>
          (mealType r = mealType_f f
               \<and> (ANY \<in> set (protein_f f) \<or> protein r \<in> set (protein_f f))
               \<and> prepTimeMinutes r \<le> maxTime f
               \<and> (difficulty_f f = ''Easy'' \<longrightarrow> difficulty r \<le> 2)
               \<and> (difficulty_f f = ''Medium'' \<longrightarrow> difficulty r = 3)
               \<and> (difficulty_f f = ''Hard'' \<longrightarrow> difficulty r \<ge> 4))" for r
    unfolding cacheMatch_def Let_def by auto
  then have "cacheMatch f = (\<lambda>r. mealType r = mealType_f f
               \<and> (ANY \<in> set (protein_f f) \<or> protein r \<in> set (protein_f f))
               \<and> prepTimeMinutes r \<le> maxTime f
               \<and> (difficulty_f f = ''Easy'' \<longrightarrow> difficulty r \<le> 2)
               \<and> (difficulty_f f = ''Medium'' \<longrightarrow> difficulty r = 3)
               \<and> (difficulty_f f = ''Hard'' \<longrightarrow> difficulty r \<ge> 4))"
    by (intro ext)
  then have a: "getCachedMatches cache f =
     filter (\<lambda>r. mealType r = mealType_f f
               \<and> (ANY \<in> set (protein_f f) \<or> protein r \<in> set (protein_f f))
               \<and> prepTimeMinutes r \<le> maxTime f
               \<and> (difficulty_f f = ''Easy'' \<longrightarrow> difficulty r \<le> 2)
               \<and> (difficulty_f f = ''Medium'' \<longrightarrow> difficulty r = 3)
               \<and> (difficulty_f f = ''Hard'' \<longrightarrow> difficulty r \<ge> 4)) cache"
    unfolding getCachedMatches_def by simp
  show ?thesis
  proof (intro conjI impI)
    show "getCachedMatches cache f =
     filter (\<lambda>r. mealType r = mealType_f f
               \<and> (ANY \<in> set (protein_f f) \<or> protein r \<in> set (protein_f f))
               \<and> prepTimeMinutes r \<le> maxTime f
               \<and> (difficulty_f f = ''Easy'' \<longrightarrow> difficulty r \<le> 2)
               \<and> (difficulty_f f = ''Medium'' \<longrightarrow> difficulty r = 3)
               \<and> (difficulty_f f = ''Hard'' \<longrightarrow> difficulty r \<ge> 4)) cache" by (rule a)
  next
    assume "difficulty_f f = ''Any''"
    then show "getCachedMatches cache f =
          filter (\<lambda>r. mealType r = mealType_f f
               \<and> (ANY \<in> set (protein_f f) \<or> protein r \<in> set (protein_f f))
               \<and> prepTimeMinutes r \<le> maxTime f) cache"
      by (simp add: a)
  qed
qed

theorem getCachedMatches_exact_witness:
  "difficulty_f exMediumDinner = ''Medium''
   \<and> getCachedMatches [exStew, exCurry, exRoast, exWrap] exMediumDinner = [exCurry]"
  using getCachedMatches_exact [of "[exStew, exCurry, exRoast, exWrap]" exMediumDinner]
  by (simp add: exMediumDinner_def exStew_def exCurry_def exRoast_def exWrap_def exRecipe_def)

text \<open>
  C4. The cache is meant to hold at most one entry per title. \<open>addToCache\<close> compares the
  candidates with the titles already cached, not with each other: a batch that carries the
  same title twice, added to a cache without that title, leaves both entries in the cache.
\<close>

theorem addToCache_batch_duplicate:
  "addToCache [exStew, exStewAgain] [] = [exStew, exStewAgain]
   \<and> title exStew = title exStewAgain \<and> id_r exStew \<noteq> id_r exStewAgain
   \<and> \<not> distinct (map title (addToCache [exStew, exStewAgain] []))"
  by (simp add: addToCache_def exStew_def exStewAgain_def exRecipe_def)

text \<open>What does hold: a batch without repeated titles keeps the titles of the cache distinct,
  and a candidate whose title is cached is dropped, so of two recipes with one title that
  arrive in separate calls the first stays.\<close>

lemma addToCache_titles:
  assumes "distinct (map title prev)" and "distinct (map title newRecipes)"
  shows "distinct (map title (addToCache newRecipes prev))"
proof -
  have "title x \<noteq> title y"
    if "x \<in> set prev" "y \<in> set newRecipes" "title y \<notin> title ` set prev" for x y
    using that by (metis imageI)
  then show ?thesis
    using assms by (auto simp: addToCache_def Let_def distinct_map_filter)
qed

lemma addToCache_keeps_first:
  "title r \<in> title ` set prev \<Longrightarrow> addToCache [r] prev = prev"
  by (simp add: addToCache_def)

section \<open>Verification: the text normalizer\<close>

text \<open>
  C5. On the two example inputs the normalizer yields \<open>''tomatoe''\<close> for
  \<open>''2 cups (diced) Tomatoes''\<close> (the singularization removes one trailing \<open>s\<close> only) and
  \<open>''chicken breast''\<close> for \<open>''500g Chicken Breasts''\<close>.
\<close>

theorem cleanIngredientText_examples:
  "cleanIngredientText ''2 cups (diced) Tomatoes'' = ''tomatoe''
   \<and> cleanIngredientText ''500g Chicken Breasts'' = ''chicken breast''"
  by code_simp

text \<open>The pair of values that C5 states for the two inputs is not what the normalizer returns.\<close>

theorem cleanIngredientText_examples_counterexample:
  "\<not> (cleanIngredientText ''2 cups (diced) Tomatoes'' = ''tomato''
      \<and> cleanIngredientText ''500g Chicken Breasts'' = ''chicken breast'')"
  by code_simp

text \<open>
  C10. The singularization runs after the last \<open>trim\<close>: on \<open>''ab s''\<close> it removes the
  final \<open>s\<close> and leaves \<open>''ab ''\<close>, a key that ends in a space. The key of \<open>''ab''\<close> is
  \<open>''ab''\<close>, so the two keys differ by that trailing space only and are distinct: a
  recipe that lists both texts for one store yields two items.
\<close>

theorem cleanIngredientText_trailing_space:
  "cleanIngredientText ''ab s'' = ''ab ''
   \<and> isSpace (last (cleanIngredientText ''ab s''))
   \<and> trim (cleanIngredientText ''ab s'') \<noteq> cleanIngredientText ''ab s''
   \<and> cleanIngredientText ''ab'' = ''ab''
   \<and> cleanIngredientText ''ab s'' = cleanIngredientText ''ab'' @ '' ''
   \<and> cleanIngredientText ''ab s'' \<noteq> cleanIngredientText ''ab''
   \<and> map name (fst (toggleShoppingList exGen [] exMix ([], 0))) = [''ab '', ''ab'']"
  by code_simp

section \<open>Verification: retracting a recipe from the shopping list\<close>

lemma removeRecipe_alt:
  "removeRecipe recipe prev =
     map (\<lambda>it. it\<lparr>contributions := filter (\<lambda>c. recipeTitle c \<noteq> title recipe) (contributions it)\<rparr>)
       (filter (\<lambda>it. \<exists>c\<in>set (contributions it). recipeTitle c \<noteq> title recipe) prev)"
  unfolding removeRecipe_def
  by (induction prev) (auto simp: filter_empty_conv)

text \<open>
  C2. Removing a recipe with title \<open>T\<close> (the branch \<open>toggleShoppingList\<close> takes when the
  title is in the list) drops from every item the contributions whose \<open>recipeTitle\<close> is
  \<open>T\<close> and then drops the items left without contributions: the result is, in order, the
  items that held a contribution of another title, each with its contributions of other
  titles. Afterwards no item holds a contribution titled \<open>T\<close> and no item is empty. Only the
  title of the recipe is consulted, so contributions of distinct recipe records that share
  the title all go.
\<close>

theorem removeRecipe_retracts:
  "(isRecipeInList shoppingList (title recipe) \<longrightarrow>
      toggleShoppingList gen shoppingList recipe (prev, k) = (removeRecipe recipe prev, k))
   \<and> removeRecipe recipe prev =
       map (\<lambda>it. it\<lparr>contributions := filter (\<lambda>c. recipeTitle c \<noteq> title recipe) (contributions it)\<rparr>)
         (filter (\<lambda>it. \<exists>c\<in>set (contributions it). recipeTitle c \<noteq> title recipe) prev)
   \<and> (\<forall>it\<in>set (removeRecipe recipe prev).
         contributions it \<noteq> [] \<and> (\<forall>c\<in>set (contributions it). recipeTitle c \<noteq> title recipe))
   \<and> \<not> isRecipeInList (removeRecipe recipe prev) (title recipe)
   \<and> (\<forall>other. title other = title recipe \<longrightarrow> removeRecipe other prev = removeRecipe recipe prev)"
proof (intro conjI)
  show "isRecipeInList shoppingList (title recipe) \<longrightarrow>
      toggleShoppingList gen shoppingList recipe (prev, k) = (removeRecipe recipe prev, k)"
    by (simp add: toggleShoppingList_def)
  show "removeRecipe recipe prev =
       map (\<lambda>it. it\<lparr>contributions := filter (\<lambda>c. recipeTitle c \<noteq> title recipe) (contributions it)\<rparr>)
         (filter (\<lambda>it. \<exists>c\<in>set (contributions it). recipeTitle c \<noteq> title recipe) prev)"
    by (rule removeRecipe_alt)
  show a: "\<forall>it\<in>set (removeRecipe recipe prev).
         contributions it \<noteq> [] \<and> (\<forall>c\<in>set (contributions it). recipeTitle c \<noteq> title recipe)"
    by (auto simp: removeRecipe_def)
  show "\<not> isRecipeInList (removeRecipe recipe prev) (title recipe)"
    using a by (auto simp: isRecipeInList_def list_ex_iff)
  show "\<forall>other. title other = title recipe \<longrightarrow> removeRecipe other prev = removeRecipe recipe prev"
    by (simp add: removeRecipe_def)
qed

theorem removeRecipe_retracts_witness:
  "isRecipeInList [exOnion, exBeef, exRice] (title exStew)
   \<and> toggleShoppingList (\<lambda>k. []) [exOnion, exBeef, exRice] exStew ([exOnion, exBeef, exRice], 0)
       = ([exItem ''i1'' ''onion'' True [exContribution exCurry ''1 onion'' (Some ''$1.25'')], exRice], 0)"
  using removeRecipe_retracts [of "[exOnion, exBeef, exRice]" exStew "\<lambda>k. []" "[exOnion, exBeef, exRice]" 0]
  by (simp add: isRecipeInList_def exOnion_def exBeef_def exRice_def exItem_def exContribution_def
      exStew_def exCurry_def exRoast_def exStewAgain_def exRecipe_def)

section \<open>Verification: image patching\<close>

lemma patchSlots_idem: "patchSlots i img (patchSlots i img dp) = patchSlots i img dp"
  by (cases "lunch dp"; cases "dinner dp") (auto simp: patchSlots_def patchRecipe_def)

lemma holdsId_patchSlots: "holdsId i (patchSlots i img dp) = holdsId i dp"
  by (cases "lunch dp"; cases "dinner dp") (auto simp: patchSlots_def holdsId_def patchRecipe_def)

lemma patchSlots_noop: "\<not> holdsId i dp \<Longrightarrow> patchSlots i img dp = dp"
  by (cases "lunch dp"; cases "dinner dp") (auto simp: patchSlots_def holdsId_def patchRecipe_def)

lemma patchDay_step:
  "patchDay i img a (wp, b) = (wp(a := patchSlots i img (wp a)), b \<or> holdsId i (wp a))"
  by (cases "lunch (wp a)"; cases "dinner (wp a)")
     (auto simp: patchDay_def patchRecipe_def patchSlots_def holdsId_def)

lemma patchDay_fold:
  "fold (patchDay i img) ds (wp, b) =
     ((\<lambda>d. if d \<in> set ds then patchSlots i img (wp d) else wp d),
      b \<or> (\<exists>d\<in>set ds. holdsId i (wp d)))"
proof (induction ds arbitrary: wp b)
  case Nil
  show ?case by simp
next
  case (Cons a ds)
  let ?wp1 = "wp(a := patchSlots i img (wp a))"
  have plan: "(\<lambda>d. if d \<in> set ds then patchSlots i img (?wp1 d) else ?wp1 d)
                = (\<lambda>d. if d \<in> set (a # ds) then patchSlots i img (wp d) else wp d)"
    by (rule ext) (simp add: patchSlots_idem)
  have flag: "(\<exists>d\<in>set ds. holdsId i (?wp1 d)) \<longleftrightarrow> (\<exists>d\<in>set ds. holdsId i (wp d))"
    by (rule bex_cong) (simp_all add: holdsId_patchSlots)
  have "fold (patchDay i img) (a # ds) (wp, b)
          = fold (patchDay i img) ds (?wp1, b \<or> holdsId i (wp a))"
    by (simp add: patchDay_step)
  also have "\<dots> = ((\<lambda>d. if d \<in> set ds then patchSlots i img (?wp1 d) else ?wp1 d),
                    (b \<or> holdsId i (wp a)) \<or> (\<exists>d\<in>set ds. holdsId i (?wp1 d)))"
    by (rule Cons.IH)
  also have "\<dots> = ((\<lambda>d. if d \<in> set (a # ds) then patchSlots i img (wp d) else wp d),
                    b \<or> (\<exists>d\<in>set (a # ds). holdsId i (wp d)))"
    unfolding plan flag by auto
  finally show ?case .
qed

lemma DAYS_OF_WEEK_all: "d \<in> set DAYS_OF_WEEK"
  by (cases d) (simp_all add: DAYS_OF_WEEK_def)

lemma DAYS_OF_WEEK_UNIV: "set DAYS_OF_WEEK = UNIV"
  using DAYS_OF_WEEK_all by auto

lemma patchRecipe_noop: "\<forall>r\<in>set xs. id_r r \<noteq> i \<Longrightarrow> map (patchRecipe i img) xs = xs"
  by (induction xs) (auto simp: patchRecipe_def)

lemma handleUpdateRecipeImage_eq:
  "handleUpdateRecipeImage (weeklyPlan s) i img s =
     s\<lparr>recipes := map (patchRecipe i img) (recipes s),
       favoriteRecipes := map (patchRecipe i img) (favoriteRecipes s),
       recipeCache := map (patchRecipe i img) (recipeCache s),
       weeklyPlan := map_option (\<lambda>wp d. patchSlots i img (wp d)) (weeklyPlan s)\<rparr>"
proof (cases "weeklyPlan s")
  case None
  then show ?thesis by (simp add: handleUpdateRecipeImage_def)
next
  case (Some wp)
  have f: "fold (patchDay i img) DAYS_OF_WEEK (wp, False)
             = ((\<lambda>d. patchSlots i img (wp d)), \<exists>d. holdsId i (wp d))"
    by (simp add: patchDay_fold DAYS_OF_WEEK_UNIV)
  show ?thesis
  proof (cases "\<exists>d. holdsId i (wp d)")
    case True
    then show ?thesis using Some by (simp add: handleUpdateRecipeImage_def f)
  next
    case False
    then have "(\<lambda>d. patchSlots i img (wp d)) = wp"
      by (intro ext) (simp add: patchSlots_noop)
    then show ?thesis using Some False
      by (simp add: handleUpdateRecipeImage_def f Let_def)
  qed
qed


text \<open>When the handler runs in the render that shows the session \<open>s\<close>, so that the plan it
  closed over is the plan of \<open>s\<close>, all four collections are mapped through the same
  function: a record with id \<open>i\<close> gets \<open>image := img\<close> and keeps every other field, a
  record with another id is returned as it is, and a collection without the id is the
  same afterwards.\<close>

lemma handleUpdateRecipeImage_current:
  "handleUpdateRecipeImage (weeklyPlan s) i img s =
     s\<lparr>recipes := map (\<lambda>r. if id_r r = i then r\<lparr>image_r := Some img\<rparr> else r) (recipes s),
       favoriteRecipes :=
         map (\<lambda>r. if id_r r = i then r\<lparr>image_r := Some img\<rparr> else r) (favoriteRecipes s),
       recipeCache :=
         map (\<lambda>r. if id_r r = i then r\<lparr>image_r := Some img\<rparr> else r) (recipeCache s),
       weeklyPlan :=
         map_option
           (\<lambda>wp d. (wp d)
              \<lparr>lunch := map_option (\<lambda>r. if id_r r = i then r\<lparr>image_r := Some img\<rparr> else r) (lunch (wp d)),
               dinner := map_option (\<lambda>r. if id_r r = i then r\<lparr>image_r := Some img\<rparr> else r) (dinner (wp d))\<rparr>)
           (weeklyPlan s)\<rparr>
   \<and> ((\<forall>r\<in>set (recipes s). id_r r \<noteq> i) \<longrightarrow>
        recipes (handleUpdateRecipeImage (weeklyPlan s) i img s) = recipes s)
   \<and> ((\<forall>r\<in>set (favoriteRecipes s). id_r r \<noteq> i) \<longrightarrow>
        favoriteRecipes (handleUpdateRecipeImage (weeklyPlan s) i img s) = favoriteRecipes s)
   \<and> ((\<forall>r\<in>set (recipeCache s). id_r r \<noteq> i) \<longrightarrow>
        recipeCache (handleUpdateRecipeImage (weeklyPlan s) i img s) = recipeCache s)
   \<and> ((\<forall>wp d r. weeklyPlan s = Some wp \<and> (lunch (wp d) = Some r \<or> dinner (wp d) = Some r)
                  \<longrightarrow> id_r r \<noteq> i) \<longrightarrow>
        weeklyPlan (handleUpdateRecipeImage (weeklyPlan s) i img s) = weeklyPlan s)"
proof -
  have p: "(\<lambda>r. if id_r r = i then r\<lparr>image_r := Some img\<rparr> else r) = patchRecipe i img"
    by (rule ext) (simp add: patchRecipe_def)
  have plan: "weeklyPlan (handleUpdateRecipeImage (weeklyPlan s) i img s) = weeklyPlan s"
    if h: "\<forall>wp d r. weeklyPlan s = Some wp \<and> (lunch (wp d) = Some r \<or> dinner (wp d) = Some r)
                  \<longrightarrow> id_r r \<noteq> i"
  proof (cases "weeklyPlan s")
    case None
    then show ?thesis by (subst handleUpdateRecipeImage_eq) simp
  next
    case (Some wp)
    have "\<not> holdsId i (wp d)" for d
      using h Some unfolding holdsId_def by blast
    then have "(\<lambda>d. patchSlots i img (wp d)) = wp"
      by (intro ext) (simp add: patchSlots_noop)
    then show ?thesis using Some by (subst handleUpdateRecipeImage_eq) simp
  qed
  show ?thesis
    unfolding p
    apply (intro conjI impI)
        apply (simp add: handleUpdateRecipeImage_eq patchSlots_def)
       apply (simp add: handleUpdateRecipeImage_eq patchRecipe_noop)
      apply (simp add: handleUpdateRecipeImage_eq patchRecipe_noop)
     apply (simp add: handleUpdateRecipeImage_eq patchRecipe_noop)
    apply (erule plan)
    done
qed

text \<open>The three list collections are updated through updater functions, so they are patched
  whatever plan the handler closed over.\<close>

lemma handleUpdateRecipeImage_lists:
  "recipes (handleUpdateRecipeImage closurePlan i img s) = map (patchRecipe i img) (recipes s)
   \<and> favoriteRecipes (handleUpdateRecipeImage closurePlan i img s)
       = map (patchRecipe i img) (favoriteRecipes s)
   \<and> recipeCache (handleUpdateRecipeImage closurePlan i img s)
       = map (patchRecipe i img) (recipeCache s)"
  by (cases closurePlan)
     (auto simp: handleUpdateRecipeImage_def Let_def split: prod.splits)

text \<open>
  C9. Patching an image is meant to set the image of the records with the given id in the
  search results, the favorites, the cache and every slot of the active plan, and to leave
  every other record alone. The plan is the exception in the code: the handler reads the
  plan it closed over and writes a copy of that plan back. A card keeps the handler of the
  render in which it asked for its image; when the plan has been regenerated before the
  image arrives, the call for a recipe of the old plan puts the old plan in place of the
  active one, so a slot of the active plan that held a record with another id changes (here
  Tuesday's lunch is lost). When the handler closed over no plan, a slot of the active plan
  that holds the id stays without the image.
\<close>

theorem handleUpdateRecipeImage_stale_plan:
  "weeklyPlan exRegenerated = Some exNewPlan
   \<and> exNewPlan Tuesday = \<lparr>lunch = Some exCurry, dinner = None\<rparr>
   \<and> id_r exCurry \<noteq> ''r4''
   \<and> map_option (\<lambda>wp. wp Tuesday)
         (weeklyPlan (handleUpdateRecipeImage (Some exPlan) ''r4'' ''png'' exRegenerated))
       = Some \<lparr>lunch = None, dinner = None\<rparr>
   \<and> map_option (\<lambda>wp. wp Monday)
         (weeklyPlan (handleUpdateRecipeImage (Some exPlan) ''r4'' ''png'' exRegenerated))
       = Some \<lparr>lunch = Some (exWrap\<lparr>image_r := Some ''png''\<rparr>), dinner = Some exStew\<rparr>
   \<and> map_option (\<lambda>wp. lunch (wp Monday)) (weeklyPlan exSession) = Some (Some exWrap)
   \<and> id_r exWrap = ''r4''
   \<and> map_option (\<lambda>wp. lunch (wp Monday))
         (weeklyPlan (handleUpdateRecipeImage None ''r4'' ''png'' exSession))
       = Some (Some exWrap)"
  by (simp add: handleUpdateRecipeImage_def patchDay_def DAYS_OF_WEEK_def exRegenerated_def
      exNewPlan_def exSession_def exPlan_def exWrap_def exStew_def exCurry_def exRecipe_def)

section \<open>Verification: the price display\<close>

lemma priceStep_fold:
  "fold priceStep ps (sum0, ok) =
     (foldl addNumber sum0 (map parseFloat (List.map_filter (matchFirst priceRegex) ps)),
      ok \<and> list_all (\<lambda>p. matchFirst priceRegex p \<noteq> None) ps)"
  by (induction ps arbitrary: sum0 ok)
     (auto simp: priceStep_def List.map_filter_simps split: option.splits)

lemma prices_alt:
  "concat (map (\<lambda>c. case price_c c of None \<Rightarrow> [] | Some p \<Rightarrow> if p = [] then [] else [p]) cs)
     = filter (\<lambda>p. p \<noteq> []) (List.map_filter price_c cs)"
  by (induction cs) (auto split: option.splits)

lemma getItemPriceDisplay_eq:
  "getItemPriceDisplay it =
     (let ps = filter (\<lambda>p. p \<noteq> []) (List.map_filter price_c (contributions it))
      in if ps = [] then None
         else if length ps = 1 then Some (hd ps)
         else if list_all (\<lambda>p. matchFirst priceRegex p \<noteq> None) ps \<and> isPositive (priceTotal ps)
         then Some (''$'' @ toFixed2 (priceTotal ps))
         else Some (join '' + '' ps))"
  unfolding getItemPriceDisplay_def prices_alt Let_def priceStep_fold priceTotal_def
  by (simp add: hd_conv_nth)

text \<open>
  C7. Let \<open>ps\<close> be the prices of the item's contributions that are present and not empty,
  and let the total be the double that the loop builds: the numbers parsed from the first
  numeric substring of each price, added in order in double arithmetic. With no such price
  there is no display; with exactly one the display is that price as written; with two or
  more it is \<open>$\<close> followed by \<^verbatim>\<open>toFixed(2)\<close> of the total when every price has a numeric
  substring and the total is positive, and the prices joined by \<open>'' + ''\<close> otherwise. So
  \<open>''$3.50''\<close> and \<open>''$1.25''\<close> display as \<open>''$4.75''\<close>, and a price without a number next to
  \<open>''$1.25''\<close> displays both as written.
\<close>

theorem getItemPriceDisplay_cases:
  "(let ps = filter (\<lambda>p. p \<noteq> []) (List.map_filter price_c (contributions it));
        total = priceTotal ps
    in (ps = [] \<longrightarrow> getItemPriceDisplay it = None)
     \<and> (length ps = 1 \<longrightarrow> getItemPriceDisplay it = Some (hd ps))
     \<and> (2 \<le> length ps \<and> list_all (\<lambda>p. matchFirst priceRegex p \<noteq> None) ps \<and> isPositive total
          \<longrightarrow> getItemPriceDisplay it = Some (''$'' @ toFixed2 total))
     \<and> (2 \<le> length ps \<and> \<not> (list_all (\<lambda>p. matchFirst priceRegex p \<noteq> None) ps \<and> isPositive total)
          \<longrightarrow> getItemPriceDisplay it = Some (join '' + '' ps)))
   \<and> getItemPriceDisplay exOnion = Some ''$4.75''
   \<and> getItemPriceDisplay exRice = Some ''about two dollars + $1.25''"
proof (intro conjI)
  show "getItemPriceDisplay exOnion = Some ''$4.75''"
    by code_simp
  show "getItemPriceDisplay exRice = Some ''about two dollars + $1.25''"
    by code_simp
  show "(let ps = filter (\<lambda>p. p \<noteq> []) (List.map_filter price_c (contributions it));
        total = priceTotal ps
    in (ps = [] \<longrightarrow> getItemPriceDisplay it = None)
     \<and> (length ps = 1 \<longrightarrow> getItemPriceDisplay it = Some (hd ps))
     \<and> (2 \<le> length ps \<and> list_all (\<lambda>p. matchFirst priceRegex p \<noteq> None) ps \<and> isPositive total
          \<longrightarrow> getItemPriceDisplay it = Some (''$'' @ toFixed2 total))
     \<and> (2 \<le> length ps \<and> \<not> (list_all (\<lambda>p. matchFirst priceRegex p \<noteq> None) ps \<and> isPositive total)
          \<longrightarrow> getItemPriceDisplay it = Some (join '' + '' ps)))"
    unfolding getItemPriceDisplay_eq Let_def by auto
qed

theorem getItemPriceDisplay_cases_witness:
  "filter (\<lambda>p. p \<noteq> []) (List.map_filter price_c (contributions exOnion)) = [''$3.50'', ''$1.25'']
   \<and> list_all (\<lambda>p. matchFirst priceRegex p \<noteq> None) [''$3.50'', ''$1.25'']
   \<and> priceTotal [''$3.50'', ''$1.25''] = Finite 5348024557502464 (- 50)
   \<and> isPositive (Finite 5348024557502464 (- 50))
   \<and> toFixed2 (Finite 5348024557502464 (- 50)) = ''4.75''
   \<and> getItemPriceDisplay exOnion = Some (''$'' @ toFixed2 (Finite 5348024557502464 (- 50)))"
proof -
  have a: "filter (\<lambda>p. p \<noteq> []) (List.map_filter price_c (contributions exOnion)) = [''$3.50'', ''$1.25'']"
    by code_simp
  have b: "list_all (\<lambda>p. matchFirst priceRegex p \<noteq> None) [''$3.50'', ''$1.25'']"
    by code_simp
  have c: "priceTotal [''$3.50'', ''$1.25''] = Finite 5348024557502464 (- 50)"
    by code_simp
  have len: "2 \<le> length [''$3.50'', ''$1.25'']"
    by simp
  have pos: "isPositive (Finite 5348024557502464 (- 50))"
    by (simp add: isPositive_def)
  have fx: "toFixed2 (Finite 5348024557502464 (- 50)) = ''4.75''"
    by code_simp
  have "2 \<le> length [''$3.50'', ''$1.25'']
          \<and> list_all (\<lambda>p. matchFirst priceRegex p \<noteq> None) [''$3.50'', ''$1.25'']
          \<and> isPositive (Finite 5348024557502464 (- 50))
        \<longrightarrow> getItemPriceDisplay exOnion
              = Some (''$'' @ toFixed2 (Finite 5348024557502464 (- 50)))"
    using getItemPriceDisplay_cases [of exOnion] unfolding Let_def a c by blast
  with len b pos
  have "getItemPriceDisplay exOnion = Some (''$'' @ toFixed2 (Finite 5348024557502464 (- 50)))"
    by blast
  with a b c pos fx show ?thesis by blast
qed

text \<open>The display as C7 words it (two decimals whenever every price parses) differs from the
  code on an item with a single price: \<open>''$3.5''\<close> is shown as written, not as \<open>''$3.50''\<close>.\<close>

theorem getItemPriceDisplay_counterexample:
  "getItemPriceDisplay exSalt = Some ''$3.5'' \<and> priceDisplay_spec exSalt = ''$3.50''"
  by code_simp

text \<open>The total is a sum of doubles: \<open>1.255 + 1\<close> is the double just below \<open>2.255\<close> and is shown
  as \<open>2.25\<close>; a total of \<open>10\<^sup>2\<^sup>1\<close> or more is shown in exponent notation.\<close>

lemma getItemPriceDisplay_double_rounding:
  "getItemPriceDisplay exThreeDecimals = Some ''$2.25''"
  by code_simp

lemma getItemPriceDisplay_exponent:
  "getItemPriceDisplay exHuge = Some ''$1e+21''"
  by code_simp

section \<open>Verification: adding a recipe to the shopping list\<close>

lemma findIndex_ge: "- 1 \<le> findIndex P xs"
  by (induction xs) (auto simp: Let_def)

lemma findIndex_neg_iff: "findIndex P xs < 0 \<longleftrightarrow> (\<forall>x\<in>set xs. \<not> P x)"
  by (induction xs) (use findIndex_ge in \<open>auto simp: Let_def\<close>)

lemma findIndex_first:
  assumes "0 \<le> findIndex P xs"
  shows "nat (findIndex P xs) < length xs \<and> P (xs ! nat (findIndex P xs))
         \<and> (\<forall>j < nat (findIndex P xs). \<not> P (xs ! j))"
  using assms
proof (induction xs)
  case Nil
  then show ?case by simp
next
  case (Cons x xs)
  show ?case
  proof (cases "P x")
    case True
    then show ?thesis by simp
  next
    case False
    with Cons.prems have nn: "0 \<le> findIndex P xs"
      by (auto simp: Let_def split: if_splits)
    then have eq: "nat (findIndex P (x # xs)) = Suc (nat (findIndex P xs))"
      using False by (simp add: Let_def nat_add_distrib)
    from Cons.IH[OF nn] show ?thesis
      unfolding eq using False by (auto simp: less_Suc_eq_0_disj)
  qed
qed

lemma findIndex_unique:
  assumes "i < length xs" "P (xs ! i)" "\<forall>j<i. \<not> P (xs ! j)"
  shows "findIndex P xs = int i"
proof -
  have ex: "\<exists>x\<in>set xs. P x" using assms(1,2) by auto
  then have nn: "0 \<le> findIndex P xs"
    using findIndex_neg_iff[of P xs] by force
  from findIndex_first[OF nn] assms
  have "nat (findIndex P xs) = i"
    by (meson linorder_neqE_nat)
  with nn show ?thesis by simp
qed

lemma mergeContribution_findIndex:
  "mergeContribution P c new l =
     (if 0 \<le> findIndex P l
      then l[nat (findIndex P l) :=
               (l ! nat (findIndex P l))\<lparr>checked := False,
                  contributions := contributions (l ! nat (findIndex P l)) @ [c]\<rparr>]
      else l @ [new])"
proof (induction l)
  case Nil
  show ?case by simp
next
  case (Cons x xs)
  show ?case
  proof (cases "P x")
    case True
    then show ?thesis by simp
  next
    case False
    show ?thesis
    proof (cases "0 \<le> findIndex P xs")
      case True
      then have "nat (findIndex P xs + 1) = Suc (nat (findIndex P xs))"
        by (simp add: nat_add_distrib)
      then show ?thesis using False True Cons.IH by (simp add: Let_def)
    next
      case neg: False
      then show ?thesis using False Cons.IH by (simp add: Let_def)
    qed
  qed
qed

lemma addIngredient_merge:
  "addIngredient gen recipe ing (l, k) =
     (mergeContribution (\<lambda>it. itemKey it = ingredientKey ing) (contributionOf recipe ing)
        (newItem gen k recipe ing) l,
      if \<exists>it\<in>set l. itemKey it = ingredientKey ing then k else Suc k)"
proof -
  let ?P = "\<lambda>it. store_i it = resolveStore ing \<and> name it = cleanIngredientText (item ing)"
  have P: "(\<lambda>it. itemKey it = ingredientKey ing) = ?P"
    by (auto simp: itemKey_def ingredientKey_def)
  have k: "(0 \<le> findIndex ?P l) \<longleftrightarrow> (\<exists>it\<in>set l. ?P it)"
    using findIndex_neg_iff[of ?P l] by auto
  show ?thesis
    unfolding P mergeContribution_findIndex
    unfolding addIngredient_def Let_def newItem_def prod.case k[symmetric]
    by simp
qed


lemma find_mergeContribution:
  assumes "itemKey new = kk"
  shows "find (\<lambda>it. itemKey it = kk') (mergeContribution (\<lambda>it. itemKey it = kk) c new l) =
           (if kk' = kk
            then Some (case find (\<lambda>it. itemKey it = kk) l of
                         Some it \<Rightarrow> it\<lparr>checked := False, contributions := contributions it @ [c]\<rparr>
                       | None \<Rightarrow> new)
            else find (\<lambda>it. itemKey it = kk') l)"
  using assms by (induction l) (auto simp: itemKey_def)

lemma keys_mergeContribution:
  assumes "itemKey new = kk"
  shows "map itemKey (mergeContribution (\<lambda>it. itemKey it = kk) c new l) =
           (if kk \<in> set (map itemKey l) then map itemKey l else map itemKey l @ [kk])"
  using assms by (induction l) (auto simp: itemKey_def)

lemma itemKey_newItem: "itemKey (newItem gen k recipe ing) = ingredientKey ing"
  by (simp add: itemKey_def newItem_def ingredientKey_def)

lemma find_addIngredient:
  "find (\<lambda>it. itemKey it = kk) (fst (addIngredient gen recipe ing st)) =
     (if kk = ingredientKey ing
      then Some (case find (\<lambda>it. itemKey it = kk) (fst st) of
                   Some it \<Rightarrow> it\<lparr>checked := False,
                                 contributions := contributions it @ [contributionOf recipe ing]\<rparr>
                 | None \<Rightarrow> newItem gen (snd st) recipe ing)
      else find (\<lambda>it. itemKey it = kk) (fst st))"
  by (cases st)
     (auto simp: addIngredient_merge find_mergeContribution[OF itemKey_newItem]
           split: option.splits)

lemma keys_addIngredient:
  "map itemKey (fst (addIngredient gen recipe ing st)) =
     (if ingredientKey ing \<in> set (map itemKey (fst st)) then map itemKey (fst st)
      else map itemKey (fst st) @ [ingredientKey ing])"
  by (cases st) (simp add: addIngredient_merge keys_mergeContribution[OF itemKey_newItem])

lemma distinct_addIngredient:
  "distinct (map itemKey (fst st)) \<Longrightarrow> distinct (map itemKey (fst (addIngredient gen recipe ing st)))"
  by (simp add: keys_addIngredient)

lemma distinct_fold_addIngredient:
  "distinct (map itemKey (fst st))
   \<Longrightarrow> distinct (map itemKey (fst (fold (addIngredient gen recipe) ings st)))"
  by (induction ings arbitrary: st) (simp_all add: distinct_addIngredient)

text \<open>Later merge steps keep what the first item of a key holds, and keep it unchecked.\<close>

lemma find_addIngredient_mono:
  assumes "find (\<lambda>it. itemKey it = kk) (fst st) = Some it"
  shows "\<exists>it'. find (\<lambda>it. itemKey it = kk) (fst (addIngredient gen recipe ing st)) = Some it'
               \<and> set (contributions it) \<subseteq> set (contributions it')
               \<and> (\<not> checked it \<longrightarrow> \<not> checked it')"
  using assms by (auto simp: find_addIngredient)

lemma find_fold_mono:
  assumes "find (\<lambda>it. itemKey it = kk) (fst st) = Some it"
  shows "\<exists>it'. find (\<lambda>it. itemKey it = kk) (fst (fold (addIngredient gen recipe) ings st)) = Some it'
               \<and> set (contributions it) \<subseteq> set (contributions it')
               \<and> (\<not> checked it \<longrightarrow> \<not> checked it')"
  using assms
proof (induction ings arbitrary: st it)
  case Nil
  then show ?case by simp
next
  case (Cons a ings)
  from find_addIngredient_mono[OF Cons.prems, of gen recipe a]
  obtain it1 where 1: "find (\<lambda>it. itemKey it = kk) (fst (addIngredient gen recipe a st)) = Some it1"
    and 2: "set (contributions it) \<subseteq> set (contributions it1)"
    and 3: "\<not> checked it \<longrightarrow> \<not> checked it1"
    by blast
  from Cons.IH[OF 1]
  obtain it' where
    "find (\<lambda>it. itemKey it = kk) (fst (fold (addIngredient gen recipe) ings (addIngredient gen recipe a st))) = Some it'"
    "set (contributions it1) \<subseteq> set (contributions it')" "\<not> checked it1 \<longrightarrow> \<not> checked it'"
    by blast
  with 2 3 show ?case by auto
qed

lemma find_fold_holds:
  assumes "ing \<in> set ings"
  shows "\<exists>it'. find (\<lambda>it. itemKey it = ingredientKey ing)
                  (fst (fold (addIngredient gen recipe) ings st)) = Some it'
               \<and> contributionOf recipe ing \<in> set (contributions it')
               \<and> \<not> checked it'"
  using assms
proof (induction ings arbitrary: st)
  case Nil
  then show ?case by simp
next
  case (Cons a ings)
  show ?case
  proof (cases "ing = a")
    case True
    obtain it1 where 1: "find (\<lambda>it. itemKey it = ingredientKey ing)
                           (fst (addIngredient gen recipe a st)) = Some it1"
      and 2: "contributionOf recipe ing \<in> set (contributions it1)" and 3: "\<not> checked it1"
      using True by (auto simp: find_addIngredient newItem_def split: option.splits)
    from find_fold_mono[OF 1, of gen recipe ings] 2 3 show ?thesis
      by auto
  next
    case False
    with Cons.prems have "ing \<in> set ings" by simp
    from Cons.IH[OF this, of "addIngredient gen recipe a st"] show ?thesis by simp
  qed
qed

lemma filter_find_distinct:
  assumes "distinct (map itemKey l)" and "find (\<lambda>it. itemKey it = kk) l = Some it"
  shows "filter (\<lambda>it. itemKey it = kk) l = [it]"
  using assms
proof (induction l)
  case Nil
  then show ?case by simp
next
  case (Cons x xs)
  show ?case
  proof (cases "itemKey x = kk")
    case True
    with Cons.prems have "x = it" and "\<forall>y\<in>set xs. itemKey y \<noteq> kk"
      by (auto simp: image_iff)
    then show ?thesis using True by (simp add: filter_empty_conv)
  next
    case False
    then show ?thesis using Cons by simp
  qed
qed

lemma first_index_exists:
  assumes "\<exists>x\<in>set l. P x"
  shows "\<exists>i<length l. P (l ! i) \<and> (\<forall>j<i. \<not> P (l ! j))"
proof -
  from assms have "0 \<le> findIndex P l"
    using findIndex_neg_iff[of P l] by force
  from findIndex_first[OF this] show ?thesis by blast
qed

lemma addIngredient_existing:
  assumes "i < length l"
    and "store_i (l ! i) = resolveStore ing \<and> name (l ! i) = cleanIngredientText (item ing)"
    and "\<forall>j<i. \<not> (store_i (l ! j) = resolveStore ing \<and> name (l ! j) = cleanIngredientText (item ing))"
  shows "addIngredient gen recipe ing (l, k) =
           (l[i := (l ! i)\<lparr>checked := False,
                            contributions := contributions (l ! i) @ [contributionOf recipe ing]\<rparr>], k)"
proof -
  let ?P = "\<lambda>it. store_i it = resolveStore ing \<and> name it = cleanIngredientText (item ing)"
  have "findIndex ?P l = int i"
    using assms by (intro findIndex_unique) auto
  then show ?thesis
    by (simp add: addIngredient_def Let_def)
qed

lemma addIngredient_fresh:
  assumes "\<forall>it\<in>set l. \<not> (store_i it = resolveStore ing \<and> name it = cleanIngredientText (item ing))"
  shows "addIngredient gen recipe ing (l, k) =
           (l @ [\<lparr>id_i = gen k, name = cleanIngredientText (item ing), store_i = resolveStore ing,
                  checked = False, contributions = [contributionOf recipe ing]\<rparr>], Suc k)"
proof -
  let ?P = "\<lambda>it. store_i it = resolveStore ing \<and> name it = cleanIngredientText (item ing)"
  have "findIndex ?P l < 0"
    using assms findIndex_neg_iff[of ?P l] by blast
  then show ?thesis
    by (simp add: addIngredient_def Let_def)
qed

lemma two_recipes_one_item:
  assumes g1: "\<not> isRecipeInList prev (title ra)"
    and g2: "\<not> isRecipeInList (fst (toggleShoppingList gen prev ra (prev, kp))) (title rb)"
    and d: "distinct (map itemKey prev)"
    and ia: "ia \<in> set (ingredients ra)" and ib: "ib \<in> set (ingredients rb)"
    and same: "ingredientKey ia = ingredientKey ib"
  shows "\<exists>it. filter (\<lambda>x. itemKey x = ingredientKey ia)
                 (fst (toggleShoppingList gen (fst (toggleShoppingList gen prev ra (prev, kp))) rb
                        (toggleShoppingList gen prev ra (prev, kp)))) = [it]
              \<and> contributionOf ra ia \<in> set (contributions it)
              \<and> contributionOf rb ib \<in> set (contributions it)
              \<and> \<not> checked it"
proof -
  let ?s1 = "fold (addIngredient gen ra) (ingredients ra) (prev, kp)"
  let ?s2 = "fold (addIngredient gen rb) (ingredients rb) ?s1"
  have t1: "toggleShoppingList gen prev ra (prev, kp) = ?s1"
    using g1 by (simp add: toggleShoppingList_def addRecipe_def)
  have t2: "toggleShoppingList gen (fst ?s1) rb ?s1 = ?s2"
    using g2 unfolding t1 by (simp add: toggleShoppingList_def addRecipe_def)
  obtain a where a: "find (\<lambda>x. itemKey x = ingredientKey ia) (fst ?s1) = Some a"
    and a1: "contributionOf ra ia \<in> set (contributions a)"
    using find_fold_holds[OF ia, of gen ra "(prev, kp)"] by blast
  obtain b where b: "find (\<lambda>x. itemKey x = ingredientKey ia) (fst ?s2) = Some b"
    and b1: "set (contributions a) \<subseteq> set (contributions b)"
    using find_fold_mono[OF a, of gen rb "ingredients rb"] by blast
  obtain b' where b': "find (\<lambda>x. itemKey x = ingredientKey ia) (fst ?s2) = Some b'"
    and b2: "contributionOf rb ib \<in> set (contributions b')" and b3: "\<not> checked b'"
    using find_fold_holds[OF ib, of gen rb ?s1] unfolding same by blast
  from b b' have eq: "b' = b" by simp
  have "distinct (map itemKey (fst ?s2))"
    using d by (simp add: distinct_fold_addIngredient)
  from filter_find_distinct[OF this b]
  have "filter (\<lambda>x. itemKey x = ingredientKey ia) (fst ?s2) = [b]" .
  with a1 b1 b2 b3 eq show ?thesis
    unfolding t1 t2 by blast
qed

text \<open>
  C1. When the recipe's title is not in the list that \<open>toggleShoppingList\<close> sees, the call
  folds the merge step over the ingredients in order. A merge step computes the normalized
  name and the store (the empty store becomes \<open>''Any''\<close>). If the list has an item with that
  store and name, the first such item receives the contribution (recipe id, recipe title,
  original text, price) at the end of its contributions and becomes unchecked, and nothing
  else changes; otherwise an item with the next id of the generator, that name and store,
  unchecked, holding just this contribution, is appended. In particular, from a list with
  at most one item per (store, name), adding two recipes that each have an ingredient with
  the same normalized name and store leaves exactly one item with that key; it holds both
  contributions and is unchecked.
\<close>

theorem toggleShoppingList_adds:
  "(\<not> isRecipeInList shoppingList (title recipe) \<longrightarrow>
      toggleShoppingList gen shoppingList recipe st
        = fold (addIngredient gen recipe) (ingredients recipe) st)
   \<and> (let nm = cleanIngredientText (item ing);
           sto = (if store ing = [] then ''Any'' else store ing);
           c = \<lparr>recipeId = id_r recipe, recipeTitle = title recipe, text_c = item ing,
                price_c = Some (price ing)\<rparr>
       in ((\<exists>it\<in>set l. store_i it = sto \<and> name it = nm) \<longrightarrow>
             (\<exists>i<length l. store_i (l ! i) = sto \<and> name (l ! i) = nm
                  \<and> (\<forall>j<i. \<not> (store_i (l ! j) = sto \<and> name (l ! j) = nm))
                  \<and> addIngredient gen recipe ing (l, k)
                      = (l[i := (l ! i)\<lparr>checked := False,
                                        contributions := contributions (l ! i) @ [c]\<rparr>], k)))
        \<and> (\<not> (\<exists>it\<in>set l. store_i it = sto \<and> name it = nm) \<longrightarrow>
             addIngredient gen recipe ing (l, k)
               = (l @ [\<lparr>id_i = gen k, name = nm, store_i = sto, checked = False,
                        contributions = [c]\<rparr>], Suc k)))
   \<and> (\<not> isRecipeInList prev (title ra)
        \<and> \<not> isRecipeInList (fst (toggleShoppingList gen prev ra (prev, kp))) (title rb)
        \<and> distinct (map (\<lambda>it. (store_i it, name it)) prev)
        \<and> ia \<in> set (ingredients ra) \<and> ib \<in> set (ingredients rb)
        \<and> cleanIngredientText (item ia) = cleanIngredientText (item ib)
        \<and> (if store ia = [] then ''Any'' else store ia) = (if store ib = [] then ''Any'' else store ib)
      \<longrightarrow> (\<exists>it. filter (\<lambda>x. store_i x = (if store ia = [] then ''Any'' else store ia)
                              \<and> name x = cleanIngredientText (item ia))
                   (fst (toggleShoppingList gen (fst (toggleShoppingList gen prev ra (prev, kp))) rb
                          (toggleShoppingList gen prev ra (prev, kp)))) = [it]
                \<and> \<lparr>recipeId = id_r ra, recipeTitle = title ra, text_c = item ia,
                    price_c = Some (price ia)\<rparr> \<in> set (contributions it)
                \<and> \<lparr>recipeId = id_r rb, recipeTitle = title rb, text_c = item ib,
                    price_c = Some (price ib)\<rparr> \<in> set (contributions it)
                \<and> \<not> checked it))"
proof (intro conjI)
  show "\<not> isRecipeInList shoppingList (title recipe) \<longrightarrow>
      toggleShoppingList gen shoppingList recipe st
        = fold (addIngredient gen recipe) (ingredients recipe) st"
    by (simp add: toggleShoppingList_def addRecipe_def)
next
  let ?P = "\<lambda>it. store_i it = resolveStore ing \<and> name it = cleanIngredientText (item ing)"
  have A: "(\<exists>it\<in>set l. ?P it) \<longrightarrow>
             (\<exists>i<length l. ?P (l ! i) \<and> (\<forall>j<i. \<not> ?P (l ! j))
                  \<and> addIngredient gen recipe ing (l, k)
                      = (l[i := (l ! i)\<lparr>checked := False,
                           contributions := contributions (l ! i) @ [contributionOf recipe ing]\<rparr>], k))"
  proof
    assume "\<exists>it\<in>set l. ?P it"
    from first_index_exists[of l ?P, OF this]
    obtain i where i: "i < length l" "?P (l ! i)" "\<forall>j<i. \<not> ?P (l ! j)" by blast
    from addIngredient_existing[OF i(1) i(2) i(3), of gen recipe k] i
    show "\<exists>i<length l. ?P (l ! i) \<and> (\<forall>j<i. \<not> ?P (l ! j))
                  \<and> addIngredient gen recipe ing (l, k)
                      = (l[i := (l ! i)\<lparr>checked := False,
                           contributions := contributions (l ! i) @ [contributionOf recipe ing]\<rparr>], k)"
      by blast
  qed
  have B: "\<not> (\<exists>it\<in>set l. ?P it) \<longrightarrow>
             addIngredient gen recipe ing (l, k)
               = (l @ [\<lparr>id_i = gen k, name = cleanIngredientText (item ing), store_i = resolveStore ing,
                        checked = False, contributions = [contributionOf recipe ing]\<rparr>], Suc k)"
    using addIngredient_fresh[of l ing gen recipe k] by blast
  show "let nm = cleanIngredientText (item ing);
           sto = (if store ing = [] then ''Any'' else store ing);
           c = \<lparr>recipeId = id_r recipe, recipeTitle = title recipe, text_c = item ing,
                price_c = Some (price ing)\<rparr>
       in ((\<exists>it\<in>set l. store_i it = sto \<and> name it = nm) \<longrightarrow>
             (\<exists>i<length l. store_i (l ! i) = sto \<and> name (l ! i) = nm
                  \<and> (\<forall>j<i. \<not> (store_i (l ! j) = sto \<and> name (l ! j) = nm))
                  \<and> addIngredient gen recipe ing (l, k)
                      = (l[i := (l ! i)\<lparr>checked := False,
                                        contributions := contributions (l ! i) @ [c]\<rparr>], k)))
        \<and> (\<not> (\<exists>it\<in>set l. store_i it = sto \<and> name it = nm) \<longrightarrow>
             addIngredient gen recipe ing (l, k)
               = (l @ [\<lparr>id_i = gen k, name = nm, store_i = sto, checked = False,
                        contributions = [c]\<rparr>], Suc k))"
    unfolding Let_def resolveStore_def[symmetric] contributionOf_def[symmetric]
    using A B by blast
next
  have key: "(\<lambda>it. (store_i it, name it)) = itemKey"
    by (rule ext) (simp add: itemKey_def)
  have filt: "(\<lambda>x. store_i x = resolveStore ia \<and> name x = cleanIngredientText (item ia))
                = (\<lambda>x. itemKey x = ingredientKey ia)"
    by (rule ext) (auto simp: itemKey_def ingredientKey_def)
  have same: "cleanIngredientText (item ia) = cleanIngredientText (item ib)
                \<and> resolveStore ia = resolveStore ib \<longrightarrow> ingredientKey ia = ingredientKey ib"
    by (simp add: ingredientKey_def)
  show "\<not> isRecipeInList prev (title ra)
        \<and> \<not> isRecipeInList (fst (toggleShoppingList gen prev ra (prev, kp))) (title rb)
        \<and> distinct (map (\<lambda>it. (store_i it, name it)) prev)
        \<and> ia \<in> set (ingredients ra) \<and> ib \<in> set (ingredients rb)
        \<and> cleanIngredientText (item ia) = cleanIngredientText (item ib)
        \<and> (if store ia = [] then ''Any'' else store ia) = (if store ib = [] then ''Any'' else store ib)
      \<longrightarrow> (\<exists>it. filter (\<lambda>x. store_i x = (if store ia = [] then ''Any'' else store ia)
                              \<and> name x = cleanIngredientText (item ia))
                   (fst (toggleShoppingList gen (fst (toggleShoppingList gen prev ra (prev, kp))) rb
                          (toggleShoppingList gen prev ra (prev, kp)))) = [it]
                \<and> \<lparr>recipeId = id_r ra, recipeTitle = title ra, text_c = item ia,
                    price_c = Some (price ia)\<rparr> \<in> set (contributions it)
                \<and> \<lparr>recipeId = id_r rb, recipeTitle = title rb, text_c = item ib,
                    price_c = Some (price ib)\<rparr> \<in> set (contributions it)
                \<and> \<not> checked it)"
    unfolding resolveStore_def[symmetric] contributionOf_def[symmetric] key filt
    using two_recipes_one_item[of prev ra gen kp rb ia ib] same by blast
qed


theorem toggleShoppingList_adds_witness:
  "\<not> isRecipeInList [exTomato] (title exSalad)
   \<and> toggleShoppingList exGen [exTomato] exSalad ([exTomato], 0)
       = ([exTomato\<lparr>checked := False,
                      contributions := contributions exTomato
                        @ [exContribution exSalad ''2 cups (diced) Tomatoes'' (Some ''$3.50'')]\<rparr>,
           \<lparr>id_i = ''id0'', name = ''salt'', store_i = ''Any'', checked = False,
            contributions = [exContribution exSalad ''Salt'' (Some ''$1'')]\<rparr>], 1)
   \<and> (\<exists>it. filter (\<lambda>x. store_i x = ''Aldi'' \<and> name x = ''tomatoe'')
              (fst (toggleShoppingList exGen
                      (fst (toggleShoppingList exGen [exTomato] exSalad ([exTomato], 0))) exSoup
                      (toggleShoppingList exGen [exTomato] exSalad ([exTomato], 0)))) = [it]
           \<and> exContribution exSalad ''2 cups (diced) Tomatoes'' (Some ''$3.50'') \<in> set (contributions it)
           \<and> exContribution exSoup ''3 Tomatoes'' (Some ''$1.25'') \<in> set (contributions it)
           \<and> \<not> checked it)"
proof -
  let ?i1 = "\<lparr>item = ''2 cups (diced) Tomatoes'', store = ''Aldi'', price = ''$3.50''\<rparr>"
  let ?i2 = "\<lparr>item = ''3 Tomatoes'', store = ''Aldi'', price = ''$1.25''\<rparr>"
  note inst = toggleShoppingList_adds [where shoppingList = "[exTomato]" and recipe = exSalad
      and gen = exGen and st = "([exTomato], 0)" and prev = "[exTomato]" and kp = 0
      and ra = exSalad and rb = exSoup and ia = ?i1 and ib = ?i2]
  have g1: "\<not> isRecipeInList [exTomato] (title exSalad)"
    by code_simp
  have f: "fold (addIngredient exGen exSalad) (ingredients exSalad) ([exTomato], 0)
       = ([exTomato\<lparr>checked := False,
                      contributions := contributions exTomato
                        @ [exContribution exSalad ''2 cups (diced) Tomatoes'' (Some ''$3.50'')]\<rparr>,
           \<lparr>id_i = ''id0'', name = ''salt'', store_i = ''Any'', checked = False,
            contributions = [exContribution exSalad ''Salt'' (Some ''$1'')]\<rparr>], 1)"
    by code_simp
  have t: "toggleShoppingList exGen [exTomato] exSalad ([exTomato], 0)
             = fold (addIngredient exGen exSalad) (ingredients exSalad) ([exTomato], 0)"
    using conjunct1[OF inst] g1 by blast
  have g2: "\<not> isRecipeInList (fst (toggleShoppingList exGen [exTomato] exSalad ([exTomato], 0))) (title exSoup)"
    by code_simp
  have d: "distinct (map (\<lambda>it. (store_i it, name it)) [exTomato])"
    by simp
  have m1: "?i1 \<in> set (ingredients exSalad)" and m2: "?i2 \<in> set (ingredients exSoup)"
    by (simp_all add: exSalad_def exSoup_def exRecipe_def)
  have n: "cleanIngredientText (item ?i1) = cleanIngredientText (item ?i2)"
    by code_simp
  have n1: "cleanIngredientText (item ?i1) = ''tomatoe''"
    by code_simp
  have s: "(if store ?i1 = [] then ''Any'' else store ?i1) = (if store ?i2 = [] then ''Any'' else store ?i2)"
    by simp
  have s1: "(if store ?i1 = [] then ''Any'' else store ?i1) = ''Aldi''"
    by simp
  have c1: "\<lparr>recipeId = id_r exSalad, recipeTitle = title exSalad, text_c = item ?i1,
              price_c = Some (price ?i1)\<rparr> = exContribution exSalad ''2 cups (diced) Tomatoes'' (Some ''$3.50'')"
    by (simp add: exContribution_def)
  have c2: "\<lparr>recipeId = id_r exSoup, recipeTitle = title exSoup, text_c = item ?i2,
              price_c = Some (price ?i2)\<rparr> = exContribution exSoup ''3 Tomatoes'' (Some ''$1.25'')"
    by (simp add: exContribution_def)
  from conjunct2[OF conjunct2[OF inst]] g1 g2 d m1 m2 n s
  have "\<exists>it. filter (\<lambda>x. store_i x = (if store ?i1 = [] then ''Any'' else store ?i1)
                              \<and> name x = cleanIngredientText (item ?i1))
              (fst (toggleShoppingList exGen
                      (fst (toggleShoppingList exGen [exTomato] exSalad ([exTomato], 0))) exSoup
                      (toggleShoppingList exGen [exTomato] exSalad ([exTomato], 0)))) = [it]
           \<and> \<lparr>recipeId = id_r exSalad, recipeTitle = title exSalad, text_c = item ?i1,
              price_c = Some (price ?i1)\<rparr> \<in> set (contributions it)
           \<and> \<lparr>recipeId = id_r exSoup, recipeTitle = title exSoup, text_c = item ?i2,
              price_c = Some (price ?i2)\<rparr> \<in> set (contributions it)
           \<and> \<not> checked it"
    by blast
  then have e: "\<exists>it. filter (\<lambda>x. store_i x = ''Aldi'' \<and> name x = ''tomatoe'')
              (fst (toggleShoppingList exGen
                      (fst (toggleShoppingList exGen [exTomato] exSalad ([exTomato], 0))) exSoup
                      (toggleShoppingList exGen [exTomato] exSalad ([exTomato], 0)))) = [it]
           \<and> exContribution exSalad ''2 cups (diced) Tomatoes'' (Some ''$3.50'') \<in> set (contributions it)
           \<and> exContribution exSoup ''3 Tomatoes'' (Some ''$1.25'') \<in> set (contributions it)
           \<and> \<not> checked it"
    unfolding s1 n1 c1 c2 .
  from g1 t f e show ?thesis by simp
qed

lemma held_addIngredient:
  "held (fst (addIngredient gen recipe ing st)) kk c =
     held (fst st) kk c + (if kk = ingredientKey ing \<and> c = contributionOf recipe ing then 1 else 0)"
  by (auto simp: held_def find_addIngredient newItem_def split: option.splits)

lemma held_fold:
  "held (fst (fold (addIngredient gen recipe) ings st)) kk c =
     held (fst st) kk c
       + length (filter (\<lambda>j. ingredientKey j = kk \<and> contributionOf recipe j = c) ings)"
  by (induction ings arbitrary: st) (auto simp: held_addIngredient)

lemma find_in_set: "find P l = Some x \<Longrightarrow> x \<in> set l \<and> P x"
  by (induction l) (auto split: if_splits)

lemma isRecipeInList_after_add:
  assumes "ingredients recipe \<noteq> []"
  shows "isRecipeInList (fst (addRecipe gen recipe st)) (title recipe)"
proof -
  from assms obtain ing where "ing \<in> set (ingredients recipe)"
    by (cases "ingredients recipe") auto
  from find_fold_holds[OF this, of gen recipe st]
  obtain it where f: "find (\<lambda>it. itemKey it = ingredientKey ing) (fst (addRecipe gen recipe st)) = Some it"
    and c: "contributionOf recipe ing \<in> set (contributions it)"
    unfolding addRecipe_def by blast
  from find_in_set[OF f] have "it \<in> set (fst (addRecipe gen recipe st))" by simp
  moreover have "recipeTitle (contributionOf recipe ing) = title recipe"
    by (simp add: contributionOf_def)
  ultimately show ?thesis
    using c unfolding isRecipeInList_def list_ex_iff by blast
qed

text \<open>
  C8. Two calls of \<open>toggleShoppingList\<close> for one recipe that both see a list without the
  recipe's title (two calls from one event handler share the list of the render) both take
  the add branch: for each ingredient of the recipe, the item its merge goes to holds the
  ingredient's contribution \<open>n\<close> times more after the first call and \<open>2 * n\<close> times more
  after the second, where \<open>n \<ge> 1\<close> counts how often the recipe lists that contribution under
  that key. So after the second call every such item holds the contribution at least twice.
\<close>

theorem toggleShoppingList_twice_duplicates:
  "\<not> isRecipeInList shoppingList (title recipe) \<and> ing \<in> set (ingredients recipe) \<longrightarrow>
     (let once = toggleShoppingList gen shoppingList recipe st;
          twice = toggleShoppingList gen shoppingList recipe once;
          kk = ingredientKey ing;
          c = contributionOf recipe ing;
          n = length (filter (\<lambda>j. ingredientKey j = kk \<and> contributionOf recipe j = c)
                        (ingredients recipe))
      in 1 \<le> n
       \<and> held (fst once) kk c = held (fst st) kk c + n
       \<and> held (fst twice) kk c = held (fst st) kk c + 2 * n
       \<and> (\<exists>it. find (\<lambda>x. itemKey x = kk) (fst twice) = Some it
               \<and> 2 \<le> count_list (contributions it) c))"
proof (intro impI, elim conjE)
  assume guard: "\<not> isRecipeInList shoppingList (title recipe)"
    and ing: "ing \<in> set (ingredients recipe)"
  let ?kk = "ingredientKey ing" and ?c = "contributionOf recipe ing"
  let ?n = "length (filter (\<lambda>j. ingredientKey j = ?kk \<and> contributionOf recipe j = ?c)
                        (ingredients recipe))"
  let ?once = "fold (addIngredient gen recipe) (ingredients recipe) st"
  let ?twice = "fold (addIngredient gen recipe) (ingredients recipe) ?once"
  have t: "toggleShoppingList gen shoppingList recipe s = fold (addIngredient gen recipe) (ingredients recipe) s" for s
    using guard by (simp add: toggleShoppingList_def addRecipe_def)
  have "ing \<in> set (filter (\<lambda>j. ingredientKey j = ?kk \<and> contributionOf recipe j = ?c) (ingredients recipe))"
    using ing by simp
  then have n: "1 \<le> ?n"
    by (metis One_nat_def Suc_leI length_pos_if_in_set)
  have h1: "held (fst ?once) ?kk ?c = held (fst st) ?kk ?c + ?n"
    by (rule held_fold)
  have h2: "held (fst ?twice) ?kk ?c = held (fst st) ?kk ?c + 2 * ?n"
    by (simp add: held_fold)
  obtain it where f: "find (\<lambda>x. itemKey x = ?kk) (fst ?twice) = Some it"
    using find_fold_holds[OF ing, of gen recipe ?once] by blast
  then have "count_list (contributions it) ?c = held (fst ?twice) ?kk ?c"
    by (simp add: held_def)
  with h2 n have "2 \<le> count_list (contributions it) ?c" by simp
  with f have ex: "\<exists>it. find (\<lambda>x. itemKey x = ?kk) (fst ?twice) = Some it
               \<and> 2 \<le> count_list (contributions it) ?c" by blast
  show "let once = toggleShoppingList gen shoppingList recipe st;
          twice = toggleShoppingList gen shoppingList recipe once;
          kk = ingredientKey ing;
          c = contributionOf recipe ing;
          n = length (filter (\<lambda>j. ingredientKey j = kk \<and> contributionOf recipe j = c)
                        (ingredients recipe))
      in 1 \<le> n
       \<and> held (fst once) kk c = held (fst st) kk c + n
       \<and> held (fst twice) kk c = held (fst st) kk c + 2 * n
       \<and> (\<exists>it. find (\<lambda>x. itemKey x = kk) (fst twice) = Some it
               \<and> 2 \<le> count_list (contributions it) c)"
    unfolding Let_def t using n h1 h2 ex by blast
qed

theorem toggleShoppingList_twice_duplicates_witness:
  "\<not> isRecipeInList [] (title exSoup)
   \<and> \<lparr>item = ''3 Tomatoes'', store = ''Aldi'', price = ''$1.25''\<rparr> \<in> set (ingredients exSoup)
   \<and> fst (toggleShoppingList exGen [] exSoup (toggleShoppingList exGen [] exSoup ([], 0)))
       = [\<lparr>id_i = ''id0'', name = ''tomatoe'', store_i = ''Aldi'', checked = False,
           contributions = [exContribution exSoup ''3 Tomatoes'' (Some ''$1.25''),
                            exContribution exSoup ''3 Tomatoes'' (Some ''$1.25'')]\<rparr>]
   \<and> held (fst (toggleShoppingList exGen [] exSoup (toggleShoppingList exGen [] exSoup ([], 0))))
         (''Aldi'', ''tomatoe'') (exContribution exSoup ''3 Tomatoes'' (Some ''$1.25'')) = 2"
proof -
  let ?ing = "\<lparr>item = ''3 Tomatoes'', store = ''Aldi'', price = ''$1.25''\<rparr>"
  have g: "\<not> isRecipeInList [] (title exSoup)"
    by (simp add: isRecipeInList_def)
  have i: "?ing \<in> set (ingredients exSoup)"
    by (simp add: exSoup_def exRecipe_def)
  have k: "ingredientKey ?ing = (''Aldi'', ''tomatoe'')"
    by code_simp
  have c: "contributionOf exSoup ?ing = exContribution exSoup ''3 Tomatoes'' (Some ''$1.25'')"
    by (simp add: contributionOf_def exContribution_def)
  have n: "length (filter (\<lambda>j. ingredientKey j = (''Aldi'', ''tomatoe'')
                              \<and> contributionOf exSoup j = exContribution exSoup ''3 Tomatoes'' (Some ''$1.25''))
                     (ingredients exSoup)) = 1"
    using k c by (simp add: exSoup_def exRecipe_def)
  have h0: "held (fst ([], 0 :: nat)) (''Aldi'', ''tomatoe'') (exContribution exSoup ''3 Tomatoes'' (Some ''$1.25'')) = 0"
    by (simp add: held_def)
  have l: "fst (toggleShoppingList exGen [] exSoup (toggleShoppingList exGen [] exSoup ([], 0)))
       = [\<lparr>id_i = ''id0'', name = ''tomatoe'', store_i = ''Aldi'', checked = False,
           contributions = [exContribution exSoup ''3 Tomatoes'' (Some ''$1.25''),
                            exContribution exSoup ''3 Tomatoes'' (Some ''$1.25'')]\<rparr>]"
    by code_simp
  from toggleShoppingList_twice_duplicates [of "[]" exSoup ?ing exGen "([], 0)"] g i
  have "held (fst (toggleShoppingList exGen [] exSoup (toggleShoppingList exGen [] exSoup ([], 0))))
         (''Aldi'', ''tomatoe'') (exContribution exSoup ''3 Tomatoes'' (Some ''$1.25'')) = 2"
    unfolding Let_def k c n h0 by simp
  with g i l show ?thesis by blast
qed

text \<open>When the list is rendered between the two calls, the second call sees the title and
  retracts the recipe instead.\<close>

lemma toggleShoppingList_twice_rendered:
  assumes "\<not> isRecipeInList l (title recipe)" and "ingredients recipe \<noteq> []"
  shows "toggleShoppingList gen (fst (toggleShoppingList gen l recipe (l, k))) recipe
           (toggleShoppingList gen l recipe (l, k))
         = (removeRecipe recipe (fst (addRecipe gen recipe (l, k))), snd (addRecipe gen recipe (l, k)))"
  using assms isRecipeInList_after_add[OF assms(2), of gen "(l, k)"]
  by (simp add: toggleShoppingList_def)

section \<open>Verification: normalizing twice\<close>

lemma lowerChar_clean: "cleanChar c \<Longrightarrow> lowerChar c = c"
  by (auto simp: cleanChar_def lowerChar_def isLowerAZ_def isDigit_def isSpace_def Let_def)

lemma toLowerCase_clean: "\<forall>c\<in>set s. cleanChar c \<Longrightarrow> toLowerCase s = s"
  by (simp add: toLowerCase_def lowerChar_clean map_idI)

lemma clean_not_paren: "cleanChar c \<Longrightarrow> c \<noteq> CHR ''(''"
  by (auto simp: cleanChar_def isLowerAZ_def isDigit_def isSpace_def Let_def)

lemma rmatch_parens_Nil: "c \<noteq> CHR ''('' \<Longrightarrow> rmatch parensRegex (c # cs) = []"
  by (simp add: parensRegex_def startsWith_def)

lemma replaceAll_parens_clean: "\<forall>c\<in>set s. cleanChar c \<Longrightarrow> replaceAll parensRegex s = s"
  by (induction s) (simp_all add: rmatch_parens_Nil clean_not_paren)

lemma rmatch_suffix: "r' \<in> set (rmatch r s) \<Longrightarrow> \<exists>k. r' = drop k s"
proof (induction r arbitrary: s r')
  case (Lit w)
  then show ?case by (auto split: if_splits)
next
  case (Plus p)
  then show ?case by auto
next
  case (Star p)
  then show ?case by auto
next
  case (Seq a b)
  from Seq.prems obtain s1 where s1: "s1 \<in> set (rmatch a s)" and r': "r' \<in> set (rmatch b s1)"
    by auto
  from Seq.IH(1)[OF s1] obtain k1 where "s1 = drop k1 s" by blast
  moreover from Seq.IH(2)[OF r'] obtain k2 where "r' = drop k2 s1" by blast
  ultimately have "r' = drop (k2 + k1) s" by simp
  then show ?case by blast
next
  case (Alt a b)
  then show ?case by auto
next
  case (Opt a)
  from Opt.prems have "r' \<in> set (rmatch a s) \<or> r' = s" by auto
  then show ?case
  proof
    assume "r' \<in> set (rmatch a s)"
    from Opt.IH[OF this] show ?thesis .
  next
    assume "r' = s"
    then have "r' = drop 0 s" by simp
    then show ?thesis by blast
  qed
qed

lemma replaceAnchored_suffix: "\<exists>k. replaceAnchored r s = drop k s"
proof (cases "rmatch r s")
  case Nil
  then have "replaceAnchored r s = drop 0 s" by (simp add: replaceAnchored_def)
  then show ?thesis by blast
next
  case (Cons a list)
  then have "a \<in> set (rmatch r s)" by simp
  from rmatch_suffix[OF this] Cons show ?thesis by (simp add: replaceAnchored_def)
qed

lemma set_replaceAnchored: "set (replaceAnchored r s) \<subseteq> set s"
  using replaceAnchored_suffix[of r s] by (auto dest: in_set_dropD)

lemma set_trim: "set (trim s) \<subseteq> set s"
  by (auto simp: trim_def dest!: set_dropWhileD)

lemma set_singularize: "set (singularize s) \<subseteq> set s"
  by (auto simp: singularize_def dest: in_set_takeD)

lemma replaceAnchored_Plus: "replaceAnchored (Plus p) s = dropWhile p s"
proof (cases "takeWhile p s")
  case Nil
  then have "dropWhile p s = s"
    by (metis append_Nil takeWhile_dropWhile_id)
  with Nil show ?thesis by (simp add: replaceAnchored_def)
next
  case (Cons a list)
  then have "rev [1 ..< Suc (length (takeWhile p s))]
               = length (takeWhile p s) # rev [1 ..< length (takeWhile p s)]"
    by simp
  then show ?thesis
    by (simp add: replaceAnchored_def dropWhile_eq_drop)
qed

lemma dropWhile_hd_id: "xs = [] \<or> \<not> P (hd xs) \<Longrightarrow> dropWhile P xs = xs"
  by (cases xs) auto

lemma trim_id:
  assumes "s = [] \<or> (\<not> isSpace (hd s) \<and> \<not> isSpace (last s))"
  shows "trim s = s"
proof -
  have 1: "dropWhile isSpace s = s"
    using assms by (intro dropWhile_hd_id) auto
  have "rev s = [] \<or> \<not> isSpace (hd (rev s))"
    using assms by (auto simp: hd_rev)
  then have 2: "dropWhile isSpace (rev s) = rev s"
    by (rule dropWhile_hd_id)
  show ?thesis by (simp add: trim_def 1 2)
qed

lemma trim_head:
  assumes "\<not> isSpace c"
  shows "\<exists>cs'. trim (c # cs) = c # cs'"
proof -
  have "dropWhile isSpace (rev cs @ [c]) = dropWhile isSpace (rev cs) @ [c]
        \<or> dropWhile isSpace (rev cs @ [c]) = [c]"
    using assms by (simp add: dropWhile_append)
  then have "rev (dropWhile isSpace (rev cs @ [c])) = c # rev (dropWhile isSpace (rev cs))
        \<or> rev (dropWhile isSpace (rev cs @ [c])) = [c]"
    by auto
  moreover have "trim (c # cs) = rev (dropWhile isSpace (rev cs @ [c]))"
    using assms by (simp add: trim_def)
  ultimately show ?thesis
    by (elim disjE) simp_all
qed

lemma endsWith_snoc1: "endsWith (u @ [b]) [c] \<longleftrightarrow> b = c"
  by (simp add: endsWith_def)

lemma endsWith_snoc2: "endsWith (u @ [a, b]) [c, d] \<longleftrightarrow> a = c \<and> b = d"
  by (simp add: endsWith_def)

lemma singularize_cases:
  "singularize z = z
   \<or> (\<exists>u a. z = u @ [a, CHR ''s''] \<and> a \<noteq> CHR ''s'' \<and> 2 \<le> length u \<and> singularize z = u @ [a])"
proof (cases "length z > 3 \<and> endsWith z ''s'' \<and> \<not> endsWith z ''ss''")
  case False
  then show ?thesis by (auto simp: singularize_def)
next
  case True
  then have "z \<noteq> []" by auto
  then obtain w b where w: "z = w @ [b]"
    by (meson rev_exhaust)
  with True have "w \<noteq> []" by auto
  then obtain u a where u: "w = u @ [a]"
    by (meson rev_exhaust)
  have z: "z = u @ [a, b]"
    by (simp add: w u)
  have len: "2 \<le> length u"
    using True by (simp add: z)
  have b: "b = CHR ''s''"
    using True endsWith_snoc1[of w b "CHR ''s''"] by (simp add: w)
  have a: "a \<noteq> CHR ''s''"
    using True endsWith_snoc2[of u a b "CHR ''s''" "CHR ''s''"] b by (simp add: z)
  have take: "take (length z - 1) z = u @ [a]"
    by (simp add: z)
  have "singularize z = u @ [a]"
    using True take by (simp add: singularize_def)
  with z a b len show ?thesis by blast
qed

lemma singularize_idem: "singularize (singularize z) = singularize z"
proof -
  from singularize_cases[of z] show ?thesis
  proof
    assume "singularize z = z"
    then show ?thesis by simp
  next
    assume "\<exists>u a. z = u @ [a, CHR ''s''] \<and> a \<noteq> CHR ''s'' \<and> 2 \<le> length u \<and> singularize z = u @ [a]"
    then obtain u a where "a \<noteq> CHR ''s''" and y: "singularize z = u @ [a]" by blast
    then have "\<not> endsWith (u @ [a]) ''s''"
      by (simp add: endsWith_snoc1)
    then have "singularize (u @ [a]) = u @ [a]"
      by (simp add: singularize_def)
    with y show ?thesis by simp
  qed
qed


lemma trim_Nil: "trim [] = []"
  by (simp add: trim_def)

lemma cleanIngredientText_shape:
  "(\<forall>c\<in>set (cleanIngredientText x). cleanChar c)
   \<and> (cleanIngredientText x = [] \<or> \<not> isQtyChar (hd (cleanIngredientText x)))
   \<and> singularize (cleanIngredientText x) = cleanIngredientText x"
proof -
  let ?w = "filter (\<lambda>c. isLowerAZ c \<or> isDigit c \<or> isSpace c) (replaceAll parensRegex (toLowerCase x))"
  let ?u = "trim (replaceAnchored quantityRegex ?w)"
  let ?v = "dropWhile isQtyChar ?u"
  let ?z = "trim ?v"
  have y: "cleanIngredientText x = singularize ?z"
    by (simp add: cleanIngredientText_def Let_def replaceAnchored_Plus)
  have w: "\<forall>c\<in>set ?w. cleanChar c"
    by (simp add: cleanChar_def)
  have "set ?u \<subseteq> set ?w"
    using set_trim set_replaceAnchored by (meson subset_trans)
  moreover have "set ?v \<subseteq> set ?u"
    by (auto dest: set_dropWhileD)
  moreover have "set ?z \<subseteq> set ?v"
    by (rule set_trim)
  moreover have "set (singularize ?z) \<subseteq> set ?z"
    by (rule set_singularize)
  ultimately have "set (singularize ?z) \<subseteq> set ?w"
    by blast
  with w have 1: "\<forall>c\<in>set (singularize ?z). cleanChar c"
    by blast
  have hz: "?z = [] \<or> \<not> isQtyChar (hd ?z)"
  proof (cases ?v)
    case Nil
    then have "?z = trim []" by (rule arg_cong)
    then have "?z = []" by (simp only: trim_Nil)
    then show ?thesis by (rule disjI1)
  next
    case (Cons c cs)
    then have q: "\<not> isQtyChar c"
      by (metis hd_dropWhile list.distinct(1) list.sel(1))
    then have "\<not> isSpace c" by (simp add: isQtyChar_def)
    from trim_head[OF this, of cs] Cons q show ?thesis by auto
  qed
  have 2: "singularize ?z = [] \<or> \<not> isQtyChar (hd (singularize ?z))"
    using singularize_cases[of ?z]
  proof
    assume "singularize ?z = ?z"
    with hz show ?thesis by simp
  next
    assume "\<exists>u a. ?z = u @ [a, CHR ''s''] \<and> a \<noteq> CHR ''s'' \<and> 2 \<le> length u \<and> singularize ?z = u @ [a]"
    then obtain u a where z: "?z = u @ [a, CHR ''s'']" and u: "2 \<le> length u"
      and s: "singularize ?z = u @ [a]" by blast
    from u have "u \<noteq> []" by auto
    then have "hd (u @ [a]) = hd ?z" unfolding z by simp
    with hz s z show ?thesis by simp
  qed
  show ?thesis
    unfolding y using 1 2 singularize_idem by blast
qed

text \<open>
  C6. The normalizer is not idempotent on every input. It is idempotent wherever the result
  is settled: if \<open>cleanIngredientText x\<close> does not end in a whitespace character and the
  quantity pattern does not match it (it does not start with a unit word followed by
  whitespace), then normalizing it again returns it unchanged.
\<close>

theorem cleanIngredientText_idempotent_if_settled:
  "(cleanIngredientText x = [] \<or> \<not> isSpace (last (cleanIngredientText x)))
   \<and> rmatch quantityRegex (cleanIngredientText x) = []
   \<longrightarrow> cleanIngredientText (cleanIngredientText x) = cleanIngredientText x"
proof (intro impI, elim conjE)
  let ?y = "cleanIngredientText x"
  assume l: "?y = [] \<or> \<not> isSpace (last ?y)" and q: "rmatch quantityRegex ?y = []"
  from cleanIngredientText_shape[of x]
  have c: "\<forall>c\<in>set ?y. cleanChar c" and h: "?y = [] \<or> \<not> isQtyChar (hd ?y)"
    and s: "singularize ?y = ?y" by blast+
  have 1: "toLowerCase ?y = ?y"
    using c by (rule toLowerCase_clean)
  have 2: "replaceAll parensRegex ?y = ?y"
    using c by (rule replaceAll_parens_clean)
  have 3: "filter (\<lambda>c. isLowerAZ c \<or> isDigit c \<or> isSpace c) ?y = ?y"
    using c by (simp add: cleanChar_def)
  have 4: "replaceAnchored quantityRegex ?y = ?y"
    using q by (simp add: replaceAnchored_def)
  have "?y = [] \<or> (\<not> isSpace (hd ?y) \<and> \<not> isSpace (last ?y))"
    using h l by (auto simp: isQtyChar_def)
  then have 5: "trim ?y = ?y"
    by (rule trim_id)
  have 6: "replaceAnchored (Plus isQtyChar) ?y = ?y"
    unfolding replaceAnchored_Plus using h by (rule dropWhile_hd_id)
  have "cleanIngredientText ?y = singularize ?y"
    unfolding cleanIngredientText_def[of ?y] Let_def 1 2 3 4 5 6 ..
  with s show "cleanIngredientText ?y = ?y" by simp
qed

theorem cleanIngredientText_idempotent_if_settled_witness:
  "\<not> isSpace (last (cleanIngredientText ''500g Chicken Breasts''))
   \<and> rmatch quantityRegex (cleanIngredientText ''500g Chicken Breasts'') = []
   \<and> cleanIngredientText (cleanIngredientText ''500g Chicken Breasts'')
       = cleanIngredientText ''500g Chicken Breasts''"
proof -
  have a: "\<not> isSpace (last (cleanIngredientText ''500g Chicken Breasts''))"
    by code_simp
  have b: "rmatch quantityRegex (cleanIngredientText ''500g Chicken Breasts'') = []"
    by code_simp
  from cleanIngredientText_idempotent_if_settled [of "''500g Chicken Breasts''"] a b
  show ?thesis by blast
qed

text \<open>Idempotence on all inputs, as C6 states it, fails: the result \<open>''ab ''\<close> for
  \<open>''ab s''\<close> is trimmed to \<open>''ab''\<close> by a second pass, and a second unit word is
  stripped by a second pass.\<close>

theorem cleanIngredientText_idempotent_counterexample:
  "\<not> (\<forall>x. cleanIngredientText (cleanIngredientText x) = cleanIngredientText x)"
proof
  assume "\<forall>x. cleanIngredientText (cleanIngredientText x) = cleanIngredientText x"
  then have "cleanIngredientText (cleanIngredientText ''ab s'') = cleanIngredientText ''ab s''"
    by blast
  moreover have "cleanIngredientText (cleanIngredientText ''ab s'') \<noteq> cleanIngredientText ''ab s''"
    by code_simp
  ultimately show False by blast
qed

lemma cleanIngredientText_not_idempotent_unit:
  "cleanIngredientText ''2 cups cups flour'' = ''cups flour''
   \<and> cleanIngredientText ''cups flour'' = ''flour''"
  by code_simp

end
